theory Spec2Isabelle
  imports Main "HOL-Library.Word"
begin

unbundle bit_operations_syntax

section \<open>The FRU inventory access engine (fru.c)\<close>

text \<open>
  A shallow embedding of the read and write engine of \<^verbatim>\<open>fru.c\<close>: the FRU object as a
  record, every handler as a function from the FRU before to the FRU after together
  with the list of externally visible events it caused, in the order it caused them.
  C's \<^verbatim>\<open>unsigned int\<close> is \<open>32 word\<close>, \<^verbatim>\<open>unsigned short\<close> is \<open>16 word\<close>,
  \<^verbatim>\<open>unsigned char\<close> is \<open>8 word\<close>, and \<^verbatim>\<open>int\<close> is \<open>int\<close> (no \<^verbatim>\<open>int\<close> of the
  engine leaves the 32-bit range: each is a flag, a byte shifted by at most one, or
  a size of at most 16 bits).
\<close>

type_synonym byte = "8 word"

subsection \<open>Constants of fru.c\<close>

definition MAX_FRU_DATA_FETCH :: int where "MAX_FRU_DATA_FETCH = 32"
definition FRU_DATA_FETCH_DECR :: int where "FRU_DATA_FETCH_DECR = 8"
definition MIN_FRU_DATA_FETCH :: int where "MIN_FRU_DATA_FETCH = 16"
definition MAX_FRU_DATA_WRITE :: int where "MAX_FRU_DATA_WRITE = 16"
definition MAX_FRU_WRITE_RETRIES :: "32 word" where "MAX_FRU_WRITE_RETRIES = 30"

subsection \<open>Error codes\<close>

text \<open>
  An \<^verbatim>\<open>int\<close> error of the C code is an \<open>error option\<close>: \<open>None\<close> is 0 (success).
  The \<^verbatim>\<open>errno\<close> values are those of the system headers.

  Modelled from the spec: \<^verbatim>\<open>IPMI_IPMI_ERR_VAL\<close> is a macro of \<^verbatim>\<open>ipmi_err.h\<close>, which is
  not among the sources. The spec says that a non-zero completion code is surfaced as
  "the IPMI error" for that code; the constructor \<open>IPMI_IPMI_ERR_VAL cc\<close> is that
  error, an error value (so not 0) that determines \<open>cc\<close>. fru.c applies the macro to
  non-zero completion codes only.
\<close>

datatype error =
    ECANCELED | EINVAL | ENOMEM | EMSGSIZE | ENOSYS | EAGAIN | EPERM | ENODEV
  | IPMI_IPMI_ERR_VAL byte

subsection \<open>Messages\<close>

text \<open>
  The three commands of the storage network function that the engine sends. A request
  is the command and its data bytes (\<^verbatim>\<open>msg.data\<close>, \<^verbatim>\<open>msg.data_len\<close> of them).
\<close>

datatype ipmi_cmd =
    IPMI_GET_FRU_INVENTORY_AREA_INFO_CMD
  | IPMI_READ_FRU_DATA_CMD
  | IPMI_WRITE_FRU_DATA_CMD

record ipmi_msg =
  cmd :: ipmi_cmd
  msg_data :: "byte list"

text \<open>
  A response as a handler receives it (\<^verbatim>\<open>rspi->msg\<close>). Every response carries its
  completion code, which the handlers read as \<^verbatim>\<open>data[0]\<close> before any check of the
  length; \<open>rsp_rest\<close> holds \<^verbatim>\<open>data[1]\<close> ... \<^verbatim>\<open>data[data_len - 1]\<close>.
\<close>

record ipmi_rsp =
  rsp_cc :: byte
  rsp_rest :: "byte list"

definition rsp_data_len :: "ipmi_rsp \<Rightarrow> int" where
  "rsp_data_len rsp = 1 + int (length (rsp_rest rsp))"

text \<open>\<^verbatim>\<open>data[i]\<close> for \<open>1 \<le> i < data_len\<close>; every use is behind a check of the length.\<close>

definition rsp_data :: "ipmi_rsp \<Rightarrow> nat \<Rightarrow> byte" where
  "rsp_data rsp i = rsp_rest rsp ! (i - 1)"

text \<open>
  Modelled from the spec: \<^verbatim>\<open>ipmi_get_uint16\<close> and \<^verbatim>\<open>ipmi_set_uint16\<close> are helpers of
  the library that are not among the sources. The spec gives 16-bit fields as
  "lo, hi": the low byte first.
\<close>

definition ipmi_get_uint16 :: "byte \<Rightarrow> byte \<Rightarrow> 32 word" where
  "ipmi_get_uint16 lo hi = ucast lo OR push_bit 8 (ucast hi)"

definition ipmi_set_uint16 :: "32 word \<Rightarrow> byte list" where
  "ipmi_set_uint16 v = [ucast v, ucast (drop_bit 8 v)]"

subsection \<open>The FRU object\<close>

text \<open>
  \<^verbatim>\<open>struct fru_update_s\<close>; the \<^verbatim>\<open>next\<close> pointers are the list that holds the records.
\<close>

record fru_update_t =
  offset :: "16 word"
  length_u :: "16 word"

text \<open>
  \<^verbatim>\<open>struct ipmi_fru_s\<close>. \<open>lock\<close> is whether the FRU's lock is held. \<open>data\<close> is the raw
  buffer (\<open>None\<close> is \<^verbatim>\<open>NULL\<close>). The two fetched handlers are function pointers: the field
  says whether one is installed. \<open>update_recs\<close> is the queue from \<^verbatim>\<open>update_recs\<close> to
  \<^verbatim>\<open>update_recs_tail\<close>. \<open>last_cmd\<close> is the array of \<open>MAX_FRU_DATA_WRITE + 4\<close> bytes.
  The names, the addressing fields other than \<open>device_id\<close>, the fetch mask, the
  destroy handler and the OS handler play no part in the engine's decisions and are
  left out, as is the destination address of a command.
\<close>

record ipmi_fru =
  deleted :: int
  refcount :: "32 word"
  in_use :: int
  lock :: bool
  device_id :: byte
  fetched_handler :: bool
  domain_fetched_handler :: bool
  access_by_words :: int
  data :: "byte list option"
  data_len :: "32 word"
  curr_pos :: "32 word"
  fetch_size :: int
  in_frulist :: int
  update_recs :: "fru_update_t list"
  last_cmd :: "byte list"
  last_cmd_len :: "32 word"
  retry_count :: "32 word"
  rec_data :: "nat option"

subsection \<open>Events\<close>

text \<open>
  What a handler does to the world outside the FRU object, in order: a command handed
  to \<^verbatim>\<open>ipmi_send_command_addr\<close>, the raw buffer given to \<^verbatim>\<open>ipmi_mem_free\<close>, a line
  for \<^verbatim>\<open>ipmi_log\<close>, a call of the user's callback (with the error and the FRU as the
  callback finds it), the decoder's \<^verbatim>\<open>write_complete\<close> hook, the final destruction of
  the object, a \<^verbatim>\<open>memcpy\<close> that leaves the raw buffer (the C code goes on after it,
  and so does the model), and a read through a \<^verbatim>\<open>NULL\<close> queue head.
\<close>

datatype log_type = IPMI_LOG_WARNING | IPMI_LOG_ERR_INFO

datatype event =
    Send_command ipmi_msg
  | Mem_free
  | Log log_type
  | Fetched_handler "error option" ipmi_fru
  | Domain_fetched_handler "error option" ipmi_fru
  | Ops_write_complete
  | Final_fru_destroy
  | Buffer_overrun
  | Null_dereference

subsection \<open>The environment\<close>

text \<open>
  What the engine consumes from its collaborators. The five completion codes that
  trigger the back-off are constants of \<^verbatim>\<open>ipmi_msgbits.h\<close>, which is not among the
  sources: they are parameters. \<open>send_rv\<close> is what \<^verbatim>\<open>ipmi_send_command_addr\<close>
  returns to the handler (a handler sends at most one command), \<open>mem_alloc_ok\<close> whether
  \<^verbatim>\<open>ipmi_mem_alloc\<close> of the raw buffer succeeds, \<open>domain_rv\<close> what
  \<^verbatim>\<open>ipmi_domain_pointer_cb\<close> returns (on 0 it has run the callback).

  The decoders see the FRU through the accessors of fru.c only.
  \<open>fru_decode_handlers\<close> is the list of registered decoders, each the \<^verbatim>\<open>decode\<close>
  function of an \<^verbatim>\<open>ipmi_fru_reg_t\<close>: it returns its error code and the pointer it
  leaves in \<^verbatim>\<open>rec_data\<close> (\<^verbatim>\<open>_ipmi_fru_set_rec_data\<close>). \<open>ops_write\<close> is the \<^verbatim>\<open>write\<close>
  hook of the installed \<^verbatim>\<open>ipmi_fru_op_t\<close>: it returns its error code, the contents it
  leaves in the raw buffer (\<^verbatim>\<open>_ipmi_fru_get_data_ptr\<close>) and the spans it passes to
  \<^verbatim>\<open>_ipmi_fru_new_update_record\<close>, in order. The \<^verbatim>\<open>write_complete\<close> hook returns
  nothing and works on the decoder's own data: it is an event.
\<close>

record fru_env =
  IPMI_CANNOT_RETURN_REQ_LENGTH_CC :: byte
  IPMI_REQUESTED_DATA_LENGTH_EXCEEDED_CC :: byte
  IPMI_REQUEST_DATA_LENGTH_INVALID_CC :: byte
  IPMI_TIMEOUT_CC :: byte
  IPMI_UNKNOWN_ERR_CC :: byte
  fru_decode_handlers :: "(ipmi_fru \<Rightarrow> error option \<times> nat option) list"
  send_rv :: "error option"
  mem_alloc_ok :: bool
  domain_rv :: "error option"
  ops_write :: "ipmi_fru \<Rightarrow> error option \<times> byte list \<times> (32 word \<times> 32 word) list"

subsection \<open>General utilities\<close>

definition ipmi_fru_lock :: "ipmi_fru \<Rightarrow> ipmi_fru" where
  "ipmi_fru_lock fru = fru\<lparr>lock := True\<rparr>"

definition ipmi_fru_unlock :: "ipmi_fru \<Rightarrow> ipmi_fru" where
  "ipmi_fru_unlock fru = fru\<lparr>lock := False\<rparr>"

definition fru_get :: "ipmi_fru \<Rightarrow> ipmi_fru" where
  "fru_get fru = fru\<lparr>refcount := refcount fru + 1\<rparr>"

text \<open>
  \<^verbatim>\<open>final_fru_destroy\<close>, for one thread: nobody takes the FRU from the registry while
  the lock is dropped, so the function runs to its end. It takes the FRU out of the
  registry, releases the lock and frees the update records and the object; the calls
  into the registry, the destroy handler and the decoder's cleanup are one event.
\<close>

definition final_fru_destroy :: "ipmi_fru \<Rightarrow> ipmi_fru \<times> event list" where
  "final_fru_destroy fru =
     (ipmi_fru_unlock (fru\<lparr>in_frulist := 0, update_recs := []\<rparr>), [Final_fru_destroy])"

definition fru_put :: "ipmi_fru \<Rightarrow> ipmi_fru \<times> event list" where
  "fru_put fru =
     (let fru1 = ipmi_fru_lock fru;
          fru2 = fru1\<lparr>refcount := refcount fru1 - 1\<rparr>
      in if refcount fru2 = 0 then final_fru_destroy fru2
         else (ipmi_fru_unlock fru2, []))"

subsection \<open>Decoder dispatch\<close>

text \<open>
  \<^verbatim>\<open>fru_call_decoders\<close>: the error starts as \<open>ENOSYS\<close>; the registered decoders are
  called in order, each on the FRU as the one before left it, until one returns 0.
\<close>

fun fru_call_decoder ::
  "(ipmi_fru \<Rightarrow> error option \<times> nat option) list \<Rightarrow> ipmi_fru \<Rightarrow> error option \<times> ipmi_fru"
where
  "fru_call_decoder [] fru = (Some ENOSYS, fru)"
| "fru_call_decoder (reg # regs) fru =
     (case reg fru of
        (None, r) \<Rightarrow> (None, fru\<lparr>rec_data := r\<rparr>)
      | (Some e, r) \<Rightarrow> fru_call_decoder regs (fru\<lparr>rec_data := r\<rparr>))"

definition fru_call_decoders :: "fru_env \<Rightarrow> ipmi_fru \<Rightarrow> error option \<times> ipmi_fru" where
  "fru_call_decoders env fru = fru_call_decoder (fru_decode_handlers env) fru"

subsection \<open>FRU raw data reading\<close>

definition fetch_complete ::
  "fru_env \<Rightarrow> ipmi_fru \<Rightarrow> error option \<Rightarrow> ipmi_fru \<times> event list"
where
  "fetch_complete env fru err =
     (let (err1, fru1) = (if err = None then fru_call_decoders env fru else (err, fru));
          ev_free = (if data fru1 \<noteq> None then [Mem_free] else []);
          fru2 = fru1\<lparr>data := None\<rparr>;
          fru3 = fru2\<lparr>in_use := 0\<rparr>;
          fru4 = ipmi_fru_unlock fru3;
          ev_cb = (if fetched_handler fru4 then [Fetched_handler err1 fru4]
                   else if domain_fetched_handler fru4 then [Domain_fetched_handler err1 fru4]
                   else []);
          (fru5, ev_put) = fru_put fru4
      in (fru5, ev_free @ ev_cb @ ev_put))"

text \<open>
  \<^verbatim>\<open>to_read\<close> of \<^verbatim>\<open>request_next_data\<close>: the unsigned difference, stored in an \<^verbatim>\<open>int\<close>,
  then capped by the fetch size.
\<close>

definition to_read :: "ipmi_fru \<Rightarrow> int" where
  "to_read fru =
     (let n = sint (data_len fru - curr_pos fru)
      in if n > fetch_size fru then fetch_size fru else n)"

definition read_fru_data_msg :: "ipmi_fru \<Rightarrow> ipmi_msg" where
  "read_fru_data_msg fru =
     \<lparr>cmd = IPMI_READ_FRU_DATA_CMD,
      msg_data = device_id fru
        # ipmi_set_uint16 (drop_bit (nat (access_by_words fru)) (curr_pos fru))
        @ [word_of_int (drop_bit (nat (access_by_words fru)) (to_read fru))]\<rparr>"

definition request_next_data :: "fru_env \<Rightarrow> ipmi_fru \<Rightarrow> error option \<times> event list" where
  "request_next_data env fru = (send_rv env, [Send_command (read_fru_data_msg fru)])"

text \<open>
  \<^verbatim>\<open>memcpy(fru->data + pos, src, n)\<close>: the bytes that fall inside the buffer are
  written; when some fall outside (or the buffer is \<^verbatim>\<open>NULL\<close>) the copy overruns.
\<close>

definition memcpy_data ::
  "byte list option \<Rightarrow> nat \<Rightarrow> byte list \<Rightarrow> byte list option \<times> event list"
where
  "memcpy_data dst pos src =
     (case dst of
        None \<Rightarrow> (None, [Buffer_overrun])
      | Some buf \<Rightarrow>
          (Some (take (length buf) (take pos buf @ src @ drop (pos + length src) buf)),
           if pos + length src > length buf then [Buffer_overrun] else []))"

definition is_backoff_cc :: "fru_env \<Rightarrow> byte \<Rightarrow> bool" where
  "is_backoff_cc env cc \<longleftrightarrow>
     cc = IPMI_CANNOT_RETURN_REQ_LENGTH_CC env
     \<or> cc = IPMI_REQUESTED_DATA_LENGTH_EXCEEDED_CC env
     \<or> cc = IPMI_REQUEST_DATA_LENGTH_INVALID_CC env
     \<or> cc = IPMI_TIMEOUT_CC env
     \<or> cc = IPMI_UNKNOWN_ERR_CC env"

text \<open>
  The tail shared by the two places of \<^verbatim>\<open>fru_data_handler\<close> that ask for more data:
  the request, then the completion with its error when the send failed, else the
  unlock at \<^verbatim>\<open>out_unlock\<close>.
\<close>

definition request_or_complete :: "fru_env \<Rightarrow> ipmi_fru \<Rightarrow> ipmi_fru \<times> event list" where
  "request_or_complete env fru =
     (case request_next_data env fru of
        (Some e, ev) \<Rightarrow>
          (let (fru', ev') = fetch_complete env fru (Some e)
           in (fru', ev @ [Log IPMI_LOG_ERR_INFO] @ ev'))
      | (None, ev) \<Rightarrow> (ipmi_fru_unlock fru, ev))"

definition fru_data_handler :: "fru_env \<Rightarrow> ipmi_rsp \<Rightarrow> ipmi_fru \<Rightarrow> ipmi_fru \<times> event list" where
  "fru_data_handler env rsp fru0 =
     (let fru = ipmi_fru_lock fru0 in
      if deleted fru \<noteq> 0 then fetch_complete env fru (Some ECANCELED)
      else if is_backoff_cc env (rsp_cc rsp) \<and> fetch_size fru > MIN_FRU_DATA_FETCH then
        request_or_complete env (fru\<lparr>fetch_size := fetch_size fru - FRU_DATA_FETCH_DECR\<rparr>)
      else if rsp_cc rsp \<noteq> 0 then
        (if curr_pos fru \<ge> 8 then
           (let (fru', ev) = fetch_complete env (fru\<lparr>data_len := curr_pos fru\<rparr>) None
            in (fru', Log IPMI_LOG_WARNING # ev))
         else
           (let (fru', ev) = fetch_complete env fru (Some (IPMI_IPMI_ERR_VAL (rsp_cc rsp)))
            in (fru', Log IPMI_LOG_ERR_INFO # ev)))
      else if rsp_data_len rsp < 2 then
        (let (fru', ev) = fetch_complete env fru (Some EINVAL)
         in (fru', Log IPMI_LOG_ERR_INFO # ev))
      else
        (let count = push_bit (nat (access_by_words fru)) (uint (rsp_data rsp 1)) in
         if count = 0 then
           (let (fru', ev) = fetch_complete env fru (Some EINVAL)
            in (fru', Log IPMI_LOG_ERR_INFO # ev))
         else if count > rsp_data_len rsp - 2 then
           (let (fru', ev) = fetch_complete env fru (Some EINVAL)
            in (fru', Log IPMI_LOG_ERR_INFO # ev))
         else
           (let (buf, ev_cp) =
                  memcpy_data (data fru) (unat (curr_pos fru))
                    (take (nat count) (drop 1 (rsp_rest rsp)));
                fru1 = fru\<lparr>data := buf\<rparr>;
                fru2 = fru1\<lparr>curr_pos := curr_pos fru1 + word_of_int count\<rparr>
            in if curr_pos fru2 < data_len fru2 then
                 (let (fru', ev) = request_or_complete env fru2 in (fru', ev_cp @ ev))
               else
                 (let (fru', ev) = fetch_complete env fru2 None in (fru', ev_cp @ ev)))))"

definition fru_inventory_area_handler ::
  "fru_env \<Rightarrow> ipmi_rsp \<Rightarrow> ipmi_fru \<Rightarrow> ipmi_fru \<times> event list"
where
  "fru_inventory_area_handler env rsp fru0 =
     (let fru = ipmi_fru_lock fru0 in
      if deleted fru \<noteq> 0 then fetch_complete env fru (Some ECANCELED)
      else if rsp_cc rsp \<noteq> 0 then
        (let (fru', ev) = fetch_complete env fru (Some (IPMI_IPMI_ERR_VAL (rsp_cc rsp)))
         in (fru', Log IPMI_LOG_ERR_INFO # ev))
      else if rsp_data_len rsp < 4 then
        (let (fru', ev) = fetch_complete env fru (Some EINVAL)
         in (fru', Log IPMI_LOG_ERR_INFO # ev))
      else
        (let fru1 = fru\<lparr>data_len := ipmi_get_uint16 (rsp_data rsp 1) (rsp_data rsp 2)\<rparr>;
             fru2 = fru1\<lparr>access_by_words := uint (rsp_data rsp 3 AND 1)\<rparr>
         in if data_len fru2 < 8 then
              (let (fru', ev) = fetch_complete env fru2 (Some EMSGSIZE)
               in (fru', Log IPMI_LOG_ERR_INFO # ev))
            else if \<not> mem_alloc_ok env then
              (let (fru', ev) = fetch_complete env (fru2\<lparr>data := None\<rparr>) (Some ENOMEM)
               in (fru', Log IPMI_LOG_ERR_INFO # ev))
            else
              request_or_complete env
                (fru2\<lparr>data := Some (replicate (unat (data_len fru2)) 0)\<rparr>)))"

text \<open>
  \<^verbatim>\<open>ipmi_fru_alloc_internal\<close> for a logical FRU, up to the start of the fetch: the
  object is zeroed, then the reference count, \<open>in_use\<close>, the device id, the fetch size
  and the handler are set, and the lock is taken. \<open>start_logical_fru_fetch\<close> sends
  the first command; on an error the object is freed and the error returned.
\<close>

definition new_fru :: "byte \<Rightarrow> bool \<Rightarrow> ipmi_fru" where
  "new_fru dev handler =
     \<lparr>deleted = 0, refcount = 2, in_use = 1, lock = True, device_id = dev,
      fetched_handler = handler, domain_fetched_handler = False, access_by_words = 0,
      data = None, data_len = 0, curr_pos = 0, fetch_size = MAX_FRU_DATA_FETCH,
      in_frulist = 0, update_recs = [], last_cmd = replicate (nat (MAX_FRU_DATA_WRITE + 4)) 0,
      last_cmd_len = 0, retry_count = 0, rec_data = None\<rparr>"

definition start_logical_fru_fetch :: "fru_env \<Rightarrow> ipmi_fru \<Rightarrow> error option \<times> event list" where
  "start_logical_fru_fetch env fru =
     (send_rv env,
      [Send_command \<lparr>cmd = IPMI_GET_FRU_INVENTORY_AREA_INFO_CMD, msg_data = [device_id fru]\<rparr>])"

definition ipmi_fru_alloc_internal ::
  "fru_env \<Rightarrow> byte \<Rightarrow> bool \<Rightarrow> (error + ipmi_fru) \<times> event list"
where
  "ipmi_fru_alloc_internal env dev handler =
     (let fru = new_fru dev handler in
      case start_logical_fru_fetch env fru of
        (Some e, ev) \<Rightarrow> (Inl e, ev)
      | (None, ev) \<Rightarrow> (Inr fru, ev))"

subsection \<open>FRU writing\<close>

text \<open>
  \<^verbatim>\<open>_ipmi_fru_new_update_record\<close>; the first argument is whether the allocation of the
  record succeeds. The parameters are \<^verbatim>\<open>unsigned int\<close>, the fields of the record
  \<^verbatim>\<open>unsigned short\<close>: the assignments truncate.
\<close>

definition ipmi_fru_new_update_record ::
  "bool \<Rightarrow> ipmi_fru \<Rightarrow> 32 word \<Rightarrow> 32 word \<Rightarrow> error option \<times> ipmi_fru"
where
  "ipmi_fru_new_update_record alloc_ok fru offset0 length0 =
     (if \<not> alloc_ok then (Some ENOMEM, fru)
      else
        (let urec =
               (if access_by_words fru \<noteq> 0 then
                  (let (offset1, length1) =
                         (if offset0 AND 1 \<noteq> 0 then (offset0 - 1, length0 + 1)
                          else (offset0, length0));
                       length2 = (if length1 AND 1 \<noteq> 0 then length1 + 1 else length1)
                   in \<lparr>offset = ucast offset1, length_u = ucast length2\<rparr>)
                else \<lparr>offset = ucast offset0, length_u = ucast length0\<rparr>)
         in (None, fru\<lparr>update_recs := update_recs fru @ [urec]\<rparr>)))"

definition write_complete ::
  "fru_env \<Rightarrow> ipmi_fru \<Rightarrow> error option \<Rightarrow> ipmi_fru \<times> event list"
where
  "write_complete env fru err =
     (let ev_hook = (if err = None then [Ops_write_complete] else []);
          ev_free = (if data fru \<noteq> None then [Mem_free] else []);
          fru2 = fru\<lparr>data := None\<rparr>;
          fru3 = fru2\<lparr>in_use := 0\<rparr>;
          fru4 = ipmi_fru_unlock fru3;
          ev_cb = (if domain_fetched_handler fru4 then [Domain_fetched_handler err fru4]
                   else []);
          (fru5, ev_put) = fru_put fru4
      in (fru5, ev_hook @ ev_free @ ev_cb @ ev_put))"

text \<open>
  The loop of \<^verbatim>\<open>next_fru_write\<close> over the queue: the state is \<^verbatim>\<open>noff\<close>, \<^verbatim>\<open>length\<close>,
  \<^verbatim>\<open>left\<close> and the queue; it is returned as the loop leaves it.
\<close>

function write_loop ::
  "int \<Rightarrow> int \<Rightarrow> int \<Rightarrow> fru_update_t list \<Rightarrow> int \<times> int \<times> int \<times> fru_update_t list"
where
  "write_loop noff len left [] = (noff, len, left, [])"
| "write_loop noff len left (r # rs) =
     (if left > 0 \<and> noff = uint (offset r) then
        (let tlen = (if left < uint (length_u r) then left else uint (length_u r));
             r1 = r\<lparr>length_u := length_u r - word_of_int tlen\<rparr>
         in if length_u r1 > 0 then
              write_loop (noff + tlen) (len + tlen) (left - tlen)
                (r1\<lparr>offset := offset r1 + word_of_int tlen\<rparr> # rs)
            else
              write_loop (noff + tlen) (len + tlen) (left - tlen) rs)
      else (noff, len, left, r # rs))"
  by pat_completeness auto
termination
proof (relation "measure (\<lambda>(noff, len, left, recs). nat left + length recs)")
  show "wf (measure (\<lambda>(noff :: int, len :: int, left, recs :: fru_update_t list).
              nat left + length recs))"
    by simp
next
  fix noff len left :: int and r :: fru_update_t and rs tlen r1
  assume go: "0 < left \<and> noff = uint (offset r)"
    and tlen: "tlen = (if left < uint (length_u r) then left else uint (length_u r))"
    and r1: "r1 = r\<lparr>length_u := length_u r - word_of_int tlen\<rparr>"
    and more: "0 < length_u r1"
  have "tlen = left"
  proof (rule ccontr)
    assume "tlen \<noteq> left"
    with tlen have "tlen = uint (length_u r)" by (simp split: if_splits)
    with r1 more show False by simp
  qed
  with go show "((noff + tlen, len + tlen, left - tlen, r1\<lparr>offset := offset r1 + word_of_int tlen\<rparr> # rs),
                 (noff, len, left, r # rs))
                \<in> measure (\<lambda>(noff, len, left, recs). nat left + length recs)"
    by simp
next
  fix noff len left :: int and r :: fru_update_t and rs tlen r1
  assume go: "0 < left \<and> noff = uint (offset r)"
    and tlen: "tlen = (if left < uint (length_u r) then left else uint (length_u r))"
  have "0 \<le> tlen" using go tlen by (simp split: if_splits)
  then show "((noff + tlen, len + tlen, left - tlen, rs), (noff, len, left, r # rs))
             \<in> measure (\<lambda>(noff, len, left, recs). nat left + length recs)"
    by simp
qed

text \<open>
  \<^verbatim>\<open>memcpy(dst, fru->data + pos, n)\<close>: the bytes read. A byte outside the buffer is
  whatever the memory holds (0 in the model), and the copy overruns.
\<close>

definition memcpy_from :: "byte list option \<Rightarrow> nat \<Rightarrow> nat \<Rightarrow> byte list \<times> event list" where
  "memcpy_from src pos n =
     (case src of
        None \<Rightarrow> (replicate n 0, [Buffer_overrun])
      | Some buf \<Rightarrow>
          (take n (drop pos buf @ replicate n 0),
           if pos + n > length buf then [Buffer_overrun] else []))"

text \<open>
  Bytes written into an array from its index \<open>pos\<close> on; the array keeps its size.
\<close>

definition array_write :: "byte list \<Rightarrow> nat \<Rightarrow> byte list \<Rightarrow> byte list" where
  "array_write arr pos src =
     take (length arr) (take pos arr @ src @ drop (pos + length src) arr)"

definition next_fru_write ::
  "fru_env \<Rightarrow> ipmi_fru \<Rightarrow> error option \<times> ipmi_fru \<times> event list"
where
  "next_fru_write env fru =
     (case update_recs fru of
        [] \<Rightarrow> (send_rv env, fru, [Null_dereference])
      | urec # _ \<Rightarrow>
          (let offset0 = uint (offset urec);
               (noff, len, left, recs) =
                  write_loop offset0 0 MAX_FRU_DATA_WRITE (update_recs fru);
               fru1 = fru\<lparr>update_recs := recs\<rparr>;
               fru2 = fru1\<lparr>retry_count := 0\<rparr>;
               (bytes, ev_cp) = memcpy_from (data fru2) (nat offset0) (nat len);
               fru3 = fru2\<lparr>last_cmd :=
                        array_write (last_cmd fru2) 0
                          (device_id fru2
                           # ipmi_set_uint16
                               (word_of_int (drop_bit (nat (access_by_words fru2)) offset0))
                           @ bytes)\<rparr>;
               fru4 = fru3\<lparr>last_cmd_len := word_of_int (len + 3)\<rparr>
           in (send_rv env, fru4,
               ev_cp @ [Send_command \<lparr>cmd = IPMI_WRITE_FRU_DATA_CMD,
                                      msg_data = take (nat (len + 3)) (last_cmd fru4)\<rparr>])))"

definition fru_write_handler ::
  "fru_env \<Rightarrow> ipmi_rsp \<Rightarrow> ipmi_fru \<Rightarrow> ipmi_fru \<times> event list"
where
  "fru_write_handler env rsp fru0 =
     (let fru = ipmi_fru_lock fru0 in
      if rsp_cc rsp = 0x81 then
        (if retry_count fru \<ge> MAX_FRU_WRITE_RETRIES then
           write_complete env fru (Some (IPMI_IPMI_ERR_VAL (rsp_cc rsp)))
         else
           (let fru1 = fru\<lparr>retry_count := retry_count fru + 1\<rparr>;
                ev = [Send_command \<lparr>cmd = IPMI_WRITE_FRU_DATA_CMD,
                                     msg_data = take (unat (last_cmd_len fru1)) (last_cmd fru1)\<rparr>]
            in case send_rv env of
                 Some e \<Rightarrow>
                   (let (fru', ev') = write_complete env fru1 (Some e) in (fru', ev @ ev'))
               | None \<Rightarrow> (ipmi_fru_unlock fru1, ev)))
      else if rsp_cc rsp \<noteq> 0 then
        (let (fru', ev) = write_complete env fru (Some (IPMI_IPMI_ERR_VAL (rsp_cc rsp)))
         in (fru', Log IPMI_LOG_ERR_INFO # ev))
      else if rsp_data_len rsp < 2 then
        (let (fru', ev) = write_complete env fru (Some EINVAL)
         in (fru', Log IPMI_LOG_ERR_INFO # ev))
      else
        (let ev_warn =
               (if word_of_int (push_bit (nat (access_by_words fru)) (uint (rsp_data rsp 1)))
                     \<noteq> last_cmd_len fru - 3
                then [Log IPMI_LOG_WARNING] else [])
         in if update_recs fru \<noteq> [] then
              (case next_fru_write env fru of
                 (Some e, fru1, ev) \<Rightarrow>
                   (let (fru', ev') = write_complete env fru1 (Some e)
                    in (fru', ev_warn @ ev @ ev'))
               | (None, fru1, ev) \<Rightarrow> (ipmi_fru_unlock fru1, ev_warn @ ev))
            else
              (let (fru', ev) = write_complete env fru None in (fru', ev_warn @ ev))))"

text \<open>
  The spans the \<^verbatim>\<open>write\<close> hook queues, each through
  \<^verbatim>\<open>_ipmi_fru_new_update_record\<close> (a failed allocation there is the hook's to report,
  in its error code).
\<close>

fun new_update_records :: "ipmi_fru \<Rightarrow> (32 word \<times> 32 word) list \<Rightarrow> ipmi_fru" where
  "new_update_records fru [] = fru"
| "new_update_records fru ((off, len) # spans) =
     new_update_records (snd (ipmi_fru_new_update_record True fru off len)) spans"

text \<open>
  \<^verbatim>\<open>fru->ops->write(fru)\<close>: the hook's error code, and the FRU with the buffer as the
  hook leaves it (the buffer keeps its size) and the spans queued.
\<close>

definition run_write_hook :: "fru_env \<Rightarrow> ipmi_fru \<Rightarrow> error option \<times> ipmi_fru" where
  "run_write_hook env fru =
     (let n = unat (data_len fru);
          (rv, buf, spans) = ops_write env fru
      in (rv, new_update_records (fru\<lparr>data := Some (take n (buf @ replicate n 0))\<rparr>) spans))"

text \<open>
  \<^verbatim>\<open>start_domain_fru_write\<close>, entered with the lock held; the first component of the
  result is \<^verbatim>\<open>info->rv\<close>.
\<close>

definition out_err :: "ipmi_fru \<Rightarrow> error \<Rightarrow> event list \<Rightarrow> error option \<times> ipmi_fru \<times> event list" where
  "out_err fru rv ev =
     (let fru1 = fru\<lparr>update_recs := []\<rparr>;
          ev_free = (if data fru1 \<noteq> None then [Mem_free] else []);
          fru2 = fru1\<lparr>data := None\<rparr>;
          fru3 = fru2\<lparr>in_use := 0\<rparr>
      in (Some rv, ipmi_fru_unlock fru3, ev @ ev_free))"

definition start_domain_fru_write ::
  "fru_env \<Rightarrow> ipmi_fru \<Rightarrow> error option \<times> ipmi_fru \<times> event list"
where
  "start_domain_fru_write env fru =
     (if \<not> mem_alloc_ok env then out_err (fru\<lparr>data := None\<rparr>) ENOMEM []
      else
        (let fru1 = fru\<lparr>data := Some (replicate (unat (data_len fru)) 0)\<rparr>;
             (rv, fru2) = run_write_hook env fru1
         in case rv of
              Some e \<Rightarrow> out_err fru2 e []
            | None \<Rightarrow>
                if update_recs fru2 = [] then
                  (let fru3 = fru2\<lparr>data := None\<rparr>;
                       fru4 = fru3\<lparr>in_use := 0\<rparr>;
                       fru5 = ipmi_fru_unlock fru4
                   in (None, fru5,
                       Mem_free #
                       (if domain_fetched_handler fru5 then [Domain_fetched_handler None fru5]
                        else [])))
                else
                  (case next_fru_write env fru2 of
                     (Some e, fru3, ev) \<Rightarrow> out_err fru3 e ev
                   | (None, fru3, ev) \<Rightarrow> (None, ipmi_fru_unlock (fru_get fru3), ev))))"

text \<open>
  \<^verbatim>\<open>ipmi_fru_write\<close>; \<open>done\<close> is whether the caller passes a callback.
\<close>

definition ipmi_fru_write ::
  "fru_env \<Rightarrow> ipmi_fru \<Rightarrow> bool \<Rightarrow> error option \<times> ipmi_fru \<times> event list"
where
  "ipmi_fru_write env fru0 done_cb =
     (let fru = ipmi_fru_lock fru0 in
      if in_use fru \<noteq> 0 then (Some EAGAIN, ipmi_fru_unlock fru, [])
      else
        (let fru1 = fru\<lparr>in_use := 1\<rparr>;
             fru2 = fru1\<lparr>domain_fetched_handler := done_cb\<rparr>
         in case domain_rv env of
              None \<Rightarrow> start_domain_fru_write env fru2
            | Some e \<Rightarrow> (Some e, ipmi_fru_unlock fru2, [])))"

subsection \<open>Auxiliary definitions and example inputs\<close>

definition example_env :: fru_env where
  "example_env =
     \<lparr>IPMI_CANNOT_RETURN_REQ_LENGTH_CC = 0xCA,
      IPMI_REQUESTED_DATA_LENGTH_EXCEEDED_CC = 0xC8,
      IPMI_REQUEST_DATA_LENGTH_INVALID_CC = 0xC7,
      IPMI_TIMEOUT_CC = 0xC3,
      IPMI_UNKNOWN_ERR_CC = 0xFF,
      fru_decode_handlers = [\<lambda>fru. (None, Some 1)],
      send_rv = None, mem_alloc_ok = True, domain_rv = None,
      ops_write = (\<lambda>fru. (None, replicate 64 0, []))\<rparr>"

definition reading_fru :: ipmi_fru where
  "reading_fru =
     (new_fru 0 True)\<lparr>lock := False, data_len := 64, data := Some (replicate 64 0)\<rparr>"


definition backoff_rsp :: ipmi_rsp where
  "backoff_rsp = \<lparr>rsp_cc = 0xCA, rsp_rest = []\<rparr>"


definition busy_rsp :: ipmi_rsp where
  "busy_rsp = \<lparr>rsp_cc = 0x81, rsp_rest = []\<rparr>"

definition writing_fru :: ipmi_fru where
  "writing_fru =
     (new_fru 0 False)\<lparr>domain_fetched_handler := True, data_len := 16,
        curr_pos := 16, data := Some [0, 1, 2, 3, 4, 5, 6, 7, 8, 9, 10, 11, 12, 13, 14, 15],
        update_recs := [\<lparr>offset = 4, length_u = 4\<rparr>]\<rparr>"

text \<open>
  The offset and the length that \<open>ipmi_fru_new_update_record\<close> computes on a
  word-access FRU, with the tests of the low bit read as parities.
\<close>

definition normalized_offset :: "32 word \<Rightarrow> 32 word" where
  "normalized_offset off = (if odd (unat off) then off - 1 else off)"

definition normalized_length :: "32 word \<Rightarrow> 32 word \<Rightarrow> 32 word" where
  "normalized_length off len =
     (let len1 = (if odd (unat off) then len + 1 else len)
      in if odd (unat len1) then len1 + 1 else len1)"

definition last_chunk_fru :: ipmi_fru where
  "last_chunk_fru =
     (new_fru 0 True)\<lparr>lock := False, data_len := 40, data := Some (replicate 40 0),
        curr_pos := 32\<rparr>"

definition oversized_rsp :: ipmi_rsp where
  "oversized_rsp = \<lparr>rsp_cc = 0, rsp_rest = 16 # replicate 16 0xAA\<rparr>"

text \<open>An idle FRU after a completed read of 16 bytes.\<close>

definition idle_fru :: ipmi_fru where
  "idle_fru =
     (new_fru 0 False)\<lparr>refcount := 1, in_use := 0, lock := False, data_len := 16,
        curr_pos := 16, rec_data := Some 1\<rparr>"

text \<open>
  The FRU that a callback event hands to the user; \<open>None\<close> for the other events.
\<close>

definition callback_state :: "event \<Rightarrow> ipmi_fru option" where
  "callback_state ev =
     (case ev of
        Fetched_handler e s \<Rightarrow> Some s
      | Domain_fetched_handler e s \<Rightarrow> Some s
      | _ \<Rightarrow> None)"

text \<open>
  Every callback among the events finds the raw buffer gone (\<open>data\<close> is \<^verbatim>\<open>NULL\<close>),
  \<open>in_use\<close> cleared and the lock released.
\<close>

definition clean_callbacks :: "event list \<Rightarrow> bool" where
  "clean_callbacks evs \<longleftrightarrow>
     (\<forall>ev\<in>set evs. \<forall>s. callback_state ev = Some s \<longrightarrow>
        data s = None \<and> in_use s = 0 \<and> \<not> lock s)"

text \<open>
  A handler's result that came about by running a completion routine, after events
  that are not callbacks; and one that leaves the operation pending.
\<close>

definition via_completion ::
  "(ipmi_fru \<Rightarrow> error option \<Rightarrow> ipmi_fru \<times> event list) \<Rightarrow> ipmi_fru \<times> event list \<Rightarrow> bool"
where
  "via_completion complete res \<longleftrightarrow>
     (\<exists>fru1 err pre.
        res = (fst (complete fru1 err), pre @ snd (complete fru1 err))
        \<and> (\<forall>ev\<in>set pre. callback_state ev = None))"

definition pending :: "ipmi_fru \<Rightarrow> ipmi_fru \<times> event list \<Rightarrow> bool" where
  "pending fru res \<longleftrightarrow>
     in_use (fst res) = in_use fru \<and> \<not> lock (fst res)
     \<and> (\<forall>ev\<in>set (snd res). callback_state ev = None)"

definition final_rsp :: ipmi_rsp where
  "final_rsp = \<lparr>rsp_cc = 0, rsp_rest = 8 # replicate 8 0xAA\<rparr>"



text \<open>
  A word-access FRU whose cursor, advertised length and fetch size are all even.
\<close>

definition word_aligned :: "ipmi_fru \<Rightarrow> bool" where
  "word_aligned fru \<longleftrightarrow>
     access_by_words fru = 1 \<and> even (curr_pos fru) \<and> even (data_len fru)
     \<and> even (fetch_size fru)"

text \<open>What a Read FRU Data request is built from.\<close>

definition read_params :: "ipmi_fru \<Rightarrow> byte \<times> int \<times> 32 word \<times> 32 word \<times> int" where
  "read_params fru =
     (device_id fru, access_by_words fru, curr_pos fru, data_len fru, fetch_size fru)"

text \<open>
  The FRU after each of a sequence of Read FRU Data responses, each handled in its
  own environment.
\<close>

fun read_states :: "ipmi_fru \<Rightarrow> (fru_env \<times> ipmi_rsp) list \<Rightarrow> ipmi_fru list" where
  "read_states fru [] = []"
| "read_states fru ((env, rsp) # steps) =
     fst (fru_data_handler env rsp fru)
     # read_states (fst (fru_data_handler env rsp fru)) steps"

text \<open>
  Inventory-area responses of a word-access device: one advertises 9 bytes, one 24.
\<close>

definition odd_area_rsp :: ipmi_rsp where
  "odd_area_rsp = \<lparr>rsp_cc = 0, rsp_rest = [9, 0, 1]\<rparr>"

definition even_area_rsp :: ipmi_rsp where
  "even_area_rsp = \<lparr>rsp_cc = 0, rsp_rest = [24, 0, 1]\<rparr>"

text \<open>
  Records that follow one another without a gap from the cursor \<open>c\<close> on: each starts
  where the one before it ends. \<open>total_length\<close> is the number of bytes they span.
\<close>

fun contiguous :: "int \<Rightarrow> fru_update_t list \<Rightarrow> bool" where
  "contiguous c [] = True"
| "contiguous c (r # rs) = (uint (offset r) = c \<and> contiguous (c + uint (length_u r)) rs)"

definition total_length :: "fru_update_t list \<Rightarrow> int" where
  "total_length rs = sum_list (map (\<lambda>r. uint (length_u r)) rs)"

text \<open>
  A FRU being written whose queue holds three records: the second starts where the
  first ends, the third does not.
\<close>

definition queued_fru :: ipmi_fru where
  "queued_fru =
     (new_fru 0 False)\<lparr>domain_fetched_handler := True, data_len := 32, curr_pos := 32,
        data := Some [0, 1, 2, 3, 4, 5, 6, 7, 8, 9, 10, 11, 12, 13, 14, 15, 16, 17, 18, 19,
                      20, 21, 22, 23, 24, 25, 26, 27, 28, 29, 30, 31],
        update_recs := [\<lparr>offset = 0, length_u = 8\<rparr>, \<lparr>offset = 8, length_u = 12\<rparr>,
                        \<lparr>offset = 30, length_u = 2\<rparr>]\<rparr>"

section \<open>Facts about machine words\<close>

lemma odd_unat_iff: "odd (unat (w :: 'a::len word)) = odd w"
proof -
  have "bit (unat w) 0 = bit w 0"
    by (simp add: bit_unsigned_iff)
  then show ?thesis by (simp add: bit_0)
qed

lemma and_1_nonzero_iff: "(w AND 1 \<noteq> 0) = odd (unat (w :: 'a::len word))"
  unfolding odd_unat_iff
  using even_word_iff [of w] by (simp add: even_word_def)

lemma unat_ucast_16: "unat (ucast (w :: 32 word) :: 16 word) = unat w mod 65536"
  by (simp add: unsigned_ucast_eq take_bit_eq_mod)

lemma unat_minus_one_odd:
  assumes "odd (unat (w :: 32 word))"
  shows "unat (w - 1) = unat w - 1"
proof -
  from assms have "0 < unat w" by (rule odd_pos)
  then have "1 \<le> w" by (simp add: word_le_nat_alt)
  then have "unat (w - 1) = unat w - unat (1 :: 32 word)" by (rule unat_sub)
  then show ?thesis by simp
qed

lemma even_mod_65536: "even ((n::nat) mod 65536) = even n"
  by (rule dvd_mod_iff) simp

lemma even_mod_word32: "even ((n::nat) mod 4294967296) = even n"
  by (rule dvd_mod_iff) simp

lemma unat_plus_one_mod: "unat (w + 1 :: 32 word) = (unat w + 1) mod 2 ^ 32"
  by (simp add: unat_word_ariths)

lemma even_sint_iff: "even (sint (w :: 32 word)) = even w"
proof -
  have "bit (sint w) 0 = bit w 0"
    by (simp add: bit_sint_iff)
  then show ?thesis by (simp add: bit_0)
qed

lemma unat_small_int:
  assumes "0 \<le> k" "k < 2 ^ 32"
  shows "unat (word_of_int k :: 32 word) = nat k"
proof -
  from assms(1) obtain n where n: "k = int n" by (rule nonneg_int_cases)
  with assms(2) have "n < 2 ^ 32" by simp
  then have "unat (of_nat n :: 32 word) = n" by (simp add: unat_of_nat)
  with n show ?thesis by simp
qed

section \<open>The completion routines\<close>

text \<open>A decoder changes nothing of the FRU but \<open>rec_data\<close>.\<close>

lemma fru_call_decoder_frame:
  "snd (fru_call_decoder regs fru) = fru\<lparr>rec_data := rec_data (snd (fru_call_decoder regs fru))\<rparr>"
proof (induction regs arbitrary: fru)
  case Nil
  show ?case by simp
next
  case (Cons reg regs)
  show ?case
  proof (cases "reg fru")
    case (Pair e r)
    show ?thesis
    proof (cases e)
      case None
      with Pair show ?thesis by simp
    next
      case (Some a)
      have "snd (fru_call_decoder regs (fru\<lparr>rec_data := r\<rparr>)) =
            fru\<lparr>rec_data := r\<rparr>\<lparr>rec_data := rec_data (snd (fru_call_decoder regs (fru\<lparr>rec_data := r\<rparr>)))\<rparr>"
        by (rule Cons.IH)
      with Pair Some show ?thesis by simp
    qed
  qed
qed

lemma fetch_complete_eq:
  "fetch_complete env fru err =
     (let r = (if err = None then fru_call_decoders env fru else (err, fru));
          fru4 = ipmi_fru_unlock ((snd r)\<lparr>data := None, in_use := 0\<rparr>)
      in (fst (fru_put fru4),
          (if data fru \<noteq> None then [Mem_free] else [])
          @ (if fetched_handler fru then [Fetched_handler (fst r) fru4]
             else if domain_fetched_handler fru then [Domain_fetched_handler (fst r) fru4]
             else [])
          @ snd (fru_put fru4)))"
proof -
  have fr: "snd (fru_call_decoders env fru) = fru\<lparr>rec_data := rec_data (snd (fru_call_decoders env fru))\<rparr>"
    unfolding fru_call_decoders_def by (rule fru_call_decoder_frame)
  have d: "data (snd (fru_call_decoders env fru)) = data fru"
    by (subst fr) simp
  have h1: "fetched_handler (snd (fru_call_decoders env fru)) = fetched_handler fru"
    by (subst fr) simp
  have h2: "domain_fetched_handler (snd (fru_call_decoders env fru)) = domain_fetched_handler fru"
    by (subst fr) simp
  show ?thesis
    using d h1 h2
    by (cases "fru_call_decoders env fru")
       (simp add: fetch_complete_def Let_def ipmi_fru_unlock_def split: prod.splits)
qed

lemma fru_put_fst:
  "fst (fru_put fru) =
     (if refcount fru = 1
      then fru\<lparr>lock := False, refcount := 0, in_frulist := 0, update_recs := []\<rparr>
      else fru\<lparr>lock := False, refcount := refcount fru - 1\<rparr>)"
  by (simp add: fru_put_def Let_def ipmi_fru_lock_def ipmi_fru_unlock_def final_fru_destroy_def)

lemma fru_put_snd:
  "snd (fru_put fru) = (if refcount fru = 1 then [Final_fru_destroy] else [])"
  by (simp add: fru_put_def Let_def ipmi_fru_lock_def ipmi_fru_unlock_def final_fru_destroy_def)

lemma fetch_complete_fields:
  "in_use (fst (fetch_complete env fru err)) = 0"
  "data (fst (fetch_complete env fru err)) = None"
  "lock (fst (fetch_complete env fru err)) = False"
  "curr_pos (fst (fetch_complete env fru err)) = curr_pos fru"
  "data_len (fst (fetch_complete env fru err)) = data_len fru"
  "fetch_size (fst (fetch_complete env fru err)) = fetch_size fru"
  "deleted (fst (fetch_complete env fru err)) = deleted fru"
  "refcount (fst (fetch_complete env fru err)) = refcount fru - 1"
proof -
  have fr: "snd (fru_call_decoders env fru) = fru\<lparr>rec_data := rec_data (snd (fru_call_decoders env fru))\<rparr>"
    unfolding fru_call_decoders_def by (rule fru_call_decoder_frame)
  have *: "curr_pos (snd (fru_call_decoders env fru)) = curr_pos fru"
     "data_len (snd (fru_call_decoders env fru)) = data_len fru"
     "fetch_size (snd (fru_call_decoders env fru)) = fetch_size fru"
     "deleted (snd (fru_call_decoders env fru)) = deleted fru"
     "refcount (snd (fru_call_decoders env fru)) = refcount fru"
    by (subst fr, simp)+
  show "in_use (fst (fetch_complete env fru err)) = 0"
    by (simp add: fetch_complete_eq Let_def fru_put_fst ipmi_fru_unlock_def)
  show "data (fst (fetch_complete env fru err)) = None"
    by (simp add: fetch_complete_eq Let_def fru_put_fst ipmi_fru_unlock_def)
  show "lock (fst (fetch_complete env fru err)) = False"
    by (simp add: fetch_complete_eq Let_def fru_put_fst ipmi_fru_unlock_def)
  show "curr_pos (fst (fetch_complete env fru err)) = curr_pos fru"
    using * by (simp add: fetch_complete_eq Let_def fru_put_fst ipmi_fru_unlock_def)
  show "data_len (fst (fetch_complete env fru err)) = data_len fru"
    using * by (simp add: fetch_complete_eq Let_def fru_put_fst ipmi_fru_unlock_def)
  show "fetch_size (fst (fetch_complete env fru err)) = fetch_size fru"
    using * by (simp add: fetch_complete_eq Let_def fru_put_fst ipmi_fru_unlock_def)
  show "deleted (fst (fetch_complete env fru err)) = deleted fru"
    using * by (simp add: fetch_complete_eq Let_def fru_put_fst ipmi_fru_unlock_def)
  show "refcount (fst (fetch_complete env fru err)) = refcount fru - 1"
    using * by (simp add: fetch_complete_eq Let_def fru_put_fst ipmi_fru_unlock_def)
qed

lemma fetch_complete_no_send: "Send_command m \<notin> set (snd (fetch_complete env fru err))"
  by (simp add: fetch_complete_eq Let_def fru_put_snd)

lemma request_or_complete_sent:
  "request_or_complete env fru =
     (case send_rv env of
        None \<Rightarrow> (ipmi_fru_unlock fru, [Send_command (read_fru_data_msg fru)])
      | Some e \<Rightarrow>
          (fst (fetch_complete env fru (Some e)),
           Send_command (read_fru_data_msg fru) # Log IPMI_LOG_ERR_INFO
             # snd (fetch_complete env fru (Some e))))"
  by (simp add: request_or_complete_def request_next_data_def split: option.splits prod.splits)

lemma backoff_step:
  assumes "deleted fru = 0" "is_backoff_cc env (rsp_cc rsp)" "fetch_size fru > MIN_FRU_DATA_FETCH"
  shows "fru_data_handler env rsp fru =
           request_or_complete env ((ipmi_fru_lock fru)\<lparr>fetch_size := fetch_size fru - FRU_DATA_FETCH_DECR\<rparr>)"
  using assms by (simp add: fru_data_handler_def Let_def ipmi_fru_lock_def)

lemma no_backoff_step:
  assumes "deleted fru = 0" "rsp_cc rsp \<noteq> 0"
    "\<not> (is_backoff_cc env (rsp_cc rsp) \<and> fetch_size fru > MIN_FRU_DATA_FETCH)"
  shows "fru_data_handler env rsp fru =
           (if curr_pos fru \<ge> 8 then
              (fst (fetch_complete env ((ipmi_fru_lock fru)\<lparr>data_len := curr_pos fru\<rparr>) None),
               Log IPMI_LOG_WARNING
                 # snd (fetch_complete env ((ipmi_fru_lock fru)\<lparr>data_len := curr_pos fru\<rparr>) None))
            else
              (fst (fetch_complete env (ipmi_fru_lock fru) (Some (IPMI_IPMI_ERR_VAL (rsp_cc rsp)))),
               Log IPMI_LOG_ERR_INFO
                 # snd (fetch_complete env (ipmi_fru_lock fru) (Some (IPMI_IPMI_ERR_VAL (rsp_cc rsp))))))"
  using assms by (auto simp add: fru_data_handler_def Let_def ipmi_fru_lock_def split: prod.splits)

lemma fru_call_decoders_frame:
  "snd (fru_call_decoders env fru) = fru\<lparr>rec_data := rec_data (snd (fru_call_decoders env fru))\<rparr>"
  unfolding fru_call_decoders_def by (rule fru_call_decoder_frame)

lemma fetch_complete_events:
  "snd (fetch_complete env fru err) =
     (let r = (if err = None then fru_call_decoders env fru else (err, fru));
          snap = (snd r)\<lparr>data := None, in_use := 0, lock := False\<rparr>
      in (if data fru \<noteq> None then [Mem_free] else [])
         @ (if fetched_handler fru then [Fetched_handler (fst r) snap]
            else if domain_fetched_handler fru then [Domain_fetched_handler (fst r) snap]
            else [])
         @ (if refcount fru = 1 then [Final_fru_destroy] else []))"
proof -
  have "refcount (snd (fru_call_decoders env fru)) = refcount fru"
    by (subst fru_call_decoders_frame) simp
  then show ?thesis
    by (simp add: fetch_complete_eq Let_def fru_put_snd ipmi_fru_unlock_def)
qed

section \<open>Reading: capability back-off\<close>

text \<open>
  Claim C1. A Read FRU Data response that is not cancelled and carries one of the five
  back-off completion codes: while the fetch size is above 16, the handler takes 8 off
  the fetch size, leaves \<open>curr_pos\<close> alone, and its first act is to send a read for
  the same offset with the count capped by the new fetch size; when the send succeeds
  that is all it does. At a fetch size of 16 or less such a (non-zero) code ends the
  fetch and no command is sent. From the initial fetch size of 32, three such responses
  in a row give 24, then 16, then the end of the fetch.
\<close>

theorem fru_data_handler_backoff:
  assumes del: "deleted fru = 0" and cc: "is_backoff_cc env (rsp_cc rsp)"
  shows
    "(fetch_size fru > MIN_FRU_DATA_FETCH \<longrightarrow>
        fetch_size (fst (fru_data_handler env rsp fru)) = fetch_size fru - 8
      \<and> curr_pos (fst (fru_data_handler env rsp fru)) = curr_pos fru
      \<and> take 1 (snd (fru_data_handler env rsp fru)) =
          [Send_command
            \<lparr>cmd = IPMI_READ_FRU_DATA_CMD,
             msg_data =
               device_id fru
               # ipmi_set_uint16 (drop_bit (nat (access_by_words fru)) (curr_pos fru))
               @ [word_of_int (drop_bit (nat (access_by_words fru))
                    (min (fetch_size fru - 8) (sint (data_len fru - curr_pos fru))))]\<rparr>]
      \<and> (send_rv env = None \<longrightarrow>
            fru_data_handler env rsp fru =
              (fru\<lparr>lock := False, fetch_size := fetch_size fru - 8\<rparr>,
               take 1 (snd (fru_data_handler env rsp fru)))))
     \<and> (fetch_size fru \<le> MIN_FRU_DATA_FETCH \<and> rsp_cc rsp \<noteq> 0 \<longrightarrow>
          in_use (fst (fru_data_handler env rsp fru)) = 0
        \<and> (\<forall>m. Send_command m \<notin> set (snd (fru_data_handler env rsp fru))))
     \<and> (fetch_size fru = MAX_FRU_DATA_FETCH \<and> send_rv env = None \<and> rsp_cc rsp \<noteq> 0 \<longrightarrow>
          (let fru1 = fst (fru_data_handler env rsp fru);
               fru2 = fst (fru_data_handler env rsp fru1);
               fru3 = fst (fru_data_handler env rsp fru2)
           in fetch_size fru1 = 24 \<and> fetch_size fru2 = 16 \<and> fetch_size fru3 = 16
              \<and> curr_pos fru2 = curr_pos fru
              \<and> in_use fru2 = in_use fru
              \<and> in_use fru3 = 0
              \<and> (\<forall>m. Send_command m \<notin> set (snd (fru_data_handler env rsp fru2)))))"
proof -
  let ?msg = "\<lambda>f::ipmi_fru. Send_command
            \<lparr>cmd = IPMI_READ_FRU_DATA_CMD,
             msg_data =
               device_id f
               # ipmi_set_uint16 (drop_bit (nat (access_by_words f)) (curr_pos f))
               @ [word_of_int (drop_bit (nat (access_by_words f))
                    (min (fetch_size f - 8) (sint (data_len f - curr_pos f))))]\<rparr>"
  have msg: "read_fru_data_msg (f\<lparr>lock := True, fetch_size := fetch_size f - 8\<rparr>) =
          \<lparr>cmd = IPMI_READ_FRU_DATA_CMD,
             msg_data =
               device_id f
               # ipmi_set_uint16 (drop_bit (nat (access_by_words f)) (curr_pos f))
               @ [word_of_int (drop_bit (nat (access_by_words f))
                    (min (fetch_size f - 8) (sint (data_len f - curr_pos f))))]\<rparr>" for f
    by (simp add: read_fru_data_msg_def to_read_def Let_def min_def)
  have step: "fetch_size (fst (fru_data_handler env rsp f)) = fetch_size f - 8
      \<and> curr_pos (fst (fru_data_handler env rsp f)) = curr_pos f
      \<and> take 1 (snd (fru_data_handler env rsp f)) = [?msg f]
      \<and> (send_rv env = None \<longrightarrow>
            fru_data_handler env rsp f =
              (f\<lparr>lock := False, fetch_size := fetch_size f - 8\<rparr>, [?msg f]))"
    if "deleted f = 0" "fetch_size f > MIN_FRU_DATA_FETCH" for f
  proof (cases "send_rv env")
    case None
    then show ?thesis
      using that cc
      by (simp add: backoff_step request_or_complete_sent msg FRU_DATA_FETCH_DECR_def
            ipmi_fru_unlock_def ipmi_fru_lock_def)
  next
    case (Some e)
    then show ?thesis
      using that cc
      by (simp add: backoff_step request_or_complete_sent msg FRU_DATA_FETCH_DECR_def
            fetch_complete_fields ipmi_fru_lock_def)
  qed
  have stop: "in_use (fst (fru_data_handler env rsp f)) = 0
        \<and> (\<forall>m. Send_command m \<notin> set (snd (fru_data_handler env rsp f)))
        \<and> fetch_size (fst (fru_data_handler env rsp f)) = fetch_size f"
    if "deleted f = 0" "fetch_size f \<le> MIN_FRU_DATA_FETCH" "rsp_cc rsp \<noteq> 0" for f
    using that
    by (simp add: no_backoff_step fetch_complete_fields fetch_complete_no_send ipmi_fru_lock_def)
  have A: "fetch_size fru > MIN_FRU_DATA_FETCH \<longrightarrow>
        fetch_size (fst (fru_data_handler env rsp fru)) = fetch_size fru - 8
      \<and> curr_pos (fst (fru_data_handler env rsp fru)) = curr_pos fru
      \<and> take 1 (snd (fru_data_handler env rsp fru)) = [?msg fru]
      \<and> (send_rv env = None \<longrightarrow>
            fru_data_handler env rsp fru =
              (fru\<lparr>lock := False, fetch_size := fetch_size fru - 8\<rparr>,
               take 1 (snd (fru_data_handler env rsp fru))))"
    using step [OF del] by auto
  have B: "fetch_size fru \<le> MIN_FRU_DATA_FETCH \<and> rsp_cc rsp \<noteq> 0 \<longrightarrow>
          in_use (fst (fru_data_handler env rsp fru)) = 0
        \<and> (\<forall>m. Send_command m \<notin> set (snd (fru_data_handler env rsp fru)))"
    using stop [OF del] by blast
  have C: "(let fru1 = fst (fru_data_handler env rsp fru);
               fru2 = fst (fru_data_handler env rsp fru1);
               fru3 = fst (fru_data_handler env rsp fru2)
           in fetch_size fru1 = 24 \<and> fetch_size fru2 = 16 \<and> fetch_size fru3 = 16
              \<and> curr_pos fru2 = curr_pos fru
              \<and> in_use fru2 = in_use fru
              \<and> in_use fru3 = 0
              \<and> (\<forall>m. Send_command m \<notin> set (snd (fru_data_handler env rsp fru2))))"
    if fs: "fetch_size fru = MAX_FRU_DATA_FETCH" and ok: "send_rv env = None" and nz: "rsp_cc rsp \<noteq> 0"
  proof -
    define fru1 where "fru1 = fst (fru_data_handler env rsp fru)"
    define fru2 where "fru2 = fst (fru_data_handler env rsp fru1)"
    have e1: "fru1 = fru\<lparr>lock := False, fetch_size := 24\<rparr>"
      using step [OF del] fs ok
      by (simp add: fru1_def MAX_FRU_DATA_FETCH_def MIN_FRU_DATA_FETCH_def)
    then have d1: "deleted fru1 = 0" and f1: "fetch_size fru1 = 24"
      using del by simp_all
    have e2: "fru2 = fru1\<lparr>lock := False, fetch_size := 16\<rparr>"
      using step [OF d1] f1 ok
      by (simp add: fru2_def MIN_FRU_DATA_FETCH_def)
    then have d2: "deleted fru2 = 0" and f2: "fetch_size fru2 = 16"
      using d1 by simp_all
    have s3: "in_use (fst (fru_data_handler env rsp fru2)) = 0
        \<and> (\<forall>m. Send_command m \<notin> set (snd (fru_data_handler env rsp fru2)))
        \<and> fetch_size (fst (fru_data_handler env rsp fru2)) = fetch_size fru2"
      using stop [OF d2 _ nz] f2 by (simp add: MIN_FRU_DATA_FETCH_def)
    show ?thesis
      unfolding Let_def fru1_def [symmetric] fru2_def [symmetric]
      using f1 f2 s3 e1 e2 by simp
  qed
  from A B C show ?thesis by blast
qed

theorem fru_data_handler_backoff_witness:
  "deleted reading_fru = 0
   \<and> is_backoff_cc example_env (rsp_cc backoff_rsp)
   \<and> fetch_size reading_fru = MAX_FRU_DATA_FETCH
   \<and> fetch_size (fst (fru_data_handler example_env backoff_rsp reading_fru)) = 24
   \<and> curr_pos (fst (fru_data_handler example_env backoff_rsp reading_fru)) = 0
   \<and> snd (fru_data_handler example_env backoff_rsp reading_fru) =
        [Send_command \<lparr>cmd = IPMI_READ_FRU_DATA_CMD, msg_data = [0, 0, 0, 24]\<rparr>]
   \<and> fetch_size (fst (fru_data_handler example_env backoff_rsp
        (fst (fru_data_handler example_env backoff_rsp reading_fru)))) = 16
   \<and> in_use (fst (fru_data_handler example_env backoff_rsp
        (fst (fru_data_handler example_env backoff_rsp
          (fst (fru_data_handler example_env backoff_rsp reading_fru)))))) = 0"
proof -
  have h1: "deleted reading_fru = 0"
    by (simp add: reading_fru_def new_fru_def)
  have h2: "is_backoff_cc example_env (rsp_cc backoff_rsp)"
    by (simp add: is_backoff_cc_def example_env_def backoff_rsp_def)
  have h3: "fetch_size reading_fru = MAX_FRU_DATA_FETCH"
    by (simp add: reading_fru_def new_fru_def)
  have h4: "send_rv example_env = None" "rsp_cc backoff_rsp \<noteq> 0"
    by (simp_all add: example_env_def backoff_rsp_def)
  have h5: "fetch_size reading_fru > MIN_FRU_DATA_FETCH"
    by (simp add: h3 MAX_FRU_DATA_FETCH_def MIN_FRU_DATA_FETCH_def)
  note t = fru_data_handler_backoff [OF h1 h2]
  have a: "fetch_size (fst (fru_data_handler example_env backoff_rsp reading_fru)) = 24"
    "curr_pos (fst (fru_data_handler example_env backoff_rsp reading_fru)) = 0"
    using t h5 by (simp_all add: reading_fru_def new_fru_def MAX_FRU_DATA_FETCH_def)
  have b: "snd (fru_data_handler example_env backoff_rsp reading_fru) =
        [Send_command \<lparr>cmd = IPMI_READ_FRU_DATA_CMD, msg_data = [0, 0, 0, 24]\<rparr>]"
  proof -
    from t h5 h4 have "fru_data_handler example_env backoff_rsp reading_fru =
              (reading_fru\<lparr>lock := False, fetch_size := fetch_size reading_fru - 8\<rparr>,
               take 1 (snd (fru_data_handler example_env backoff_rsp reading_fru)))"
      by blast
    moreover from t h5 have "take 1 (snd (fru_data_handler example_env backoff_rsp reading_fru)) =
          [Send_command
            \<lparr>cmd = IPMI_READ_FRU_DATA_CMD,
             msg_data =
               device_id reading_fru
               # ipmi_set_uint16 (drop_bit (nat (access_by_words reading_fru)) (curr_pos reading_fru))
               @ [word_of_int (drop_bit (nat (access_by_words reading_fru))
                    (min (fetch_size reading_fru - 8) (sint (data_len reading_fru - curr_pos reading_fru))))]\<rparr>]"
      by blast
    ultimately have "snd (fru_data_handler example_env backoff_rsp reading_fru) = 
          [Send_command
            \<lparr>cmd = IPMI_READ_FRU_DATA_CMD,
             msg_data =
               device_id reading_fru
               # ipmi_set_uint16 (drop_bit (nat (access_by_words reading_fru)) (curr_pos reading_fru))
               @ [word_of_int (drop_bit (nat (access_by_words reading_fru))
                    (min (fetch_size reading_fru - 8) (sint (data_len reading_fru - curr_pos reading_fru))))]\<rparr>]"
      by (metis snd_conv)
    then show ?thesis
      by (simp add: reading_fru_def new_fru_def MAX_FRU_DATA_FETCH_def ipmi_set_uint16_def)
  qed
  have c: "fetch_size (fst (fru_data_handler example_env backoff_rsp
        (fst (fru_data_handler example_env backoff_rsp reading_fru)))) = 16
   \<and> in_use (fst (fru_data_handler example_env backoff_rsp
        (fst (fru_data_handler example_env backoff_rsp
          (fst (fru_data_handler example_env backoff_rsp reading_fru)))))) = 0"
    using t h3 h4 by (simp add: Let_def)
  from h1 h2 h3 a b c show ?thesis by simp
qed

section \<open>Reading: tolerant truncation\<close>



section \<open>Reading: the cursor and the advertised length\<close>

text \<open>
  Claim C5 says that \<open>curr_pos \<le> data_len\<close> holds at all times, also after a response
  whose count exceeds the bytes that remain. \<open>fru_data_handler\<close> compares the count with
  the length of the response only, never with \<open>data_len - curr_pos\<close>. Here 8 bytes
  remain (32 of 40 are read, and 8 are requested); the device answers with 16. The
  handler copies the 16 bytes to \<open>data + 32\<close>, past the end of the 40-byte buffer, moves
  \<open>curr_pos\<close> to 48 and completes the fetch with error 0.
\<close>

theorem fru_data_handler_exceeds_data_len:
  "curr_pos last_chunk_fru \<le> data_len last_chunk_fru
   \<and> to_read last_chunk_fru = 8
   \<and> rsp_data_len oversized_rsp = 18
   \<and> curr_pos (fst (fru_data_handler example_env oversized_rsp last_chunk_fru)) = 48
   \<and> data_len (fst (fru_data_handler example_env oversized_rsp last_chunk_fru)) = 40
   \<and> \<not> curr_pos (fst (fru_data_handler example_env oversized_rsp last_chunk_fru))
         \<le> data_len (fst (fru_data_handler example_env oversized_rsp last_chunk_fru))
   \<and> snd (fru_data_handler example_env oversized_rsp last_chunk_fru) =
       [Buffer_overrun, Mem_free,
        Fetched_handler None
          (last_chunk_fru\<lparr>curr_pos := 48, data := None, in_use := 0, rec_data := Some 1\<rparr>)]"
  by (simp add: fru_data_handler_def last_chunk_fru_def oversized_rsp_def new_fru_def
        example_env_def ipmi_fru_lock_def rsp_data_len_def rsp_data_def to_read_def
        memcpy_data_def fetch_complete_eq fru_call_decoders_def fru_put_fst fru_put_snd
        ipmi_fru_unlock_def MAX_FRU_DATA_FETCH_def MAX_FRU_DATA_WRITE_def
        MIN_FRU_DATA_FETCH_def is_backoff_cc_def Let_def)

section \<open>Reading: word access\<close>

lemma word_aligned_params:
  "read_params f = read_params g \<Longrightarrow> word_aligned f = word_aligned g"
  by (simp add: read_params_def word_aligned_def)

lemma read_fru_data_msg_params:
  "read_params f = read_params g \<Longrightarrow> read_fru_data_msg f = read_fru_data_msg g"
  by (simp add: read_params_def read_fru_data_msg_def to_read_def Let_def)

lemma fetch_complete_params:
  "read_params (fst (fetch_complete env fru err)) = read_params fru"
proof -
  have "read_params (snd (fru_call_decoders env fru)) = read_params fru"
    by (subst fru_call_decoders_frame) (simp add: read_params_def)
  then show ?thesis
    by (simp add: fetch_complete_eq Let_def fru_put_fst ipmi_fru_unlock_def read_params_def)
qed

lemma request_or_complete_params:
  "read_params (fst (request_or_complete env fru)) = read_params fru"
  by (cases "send_rv env")
     (simp_all add: request_or_complete_sent fetch_complete_params,
      simp add: read_params_def ipmi_fru_unlock_def)

lemma request_or_complete_sends:
  "Send_command m \<in> set (snd (request_or_complete env fru)) \<Longrightarrow>
   m = read_fru_data_msg (fst (request_or_complete env fru))"
proof -
  assume m: "Send_command m \<in> set (snd (request_or_complete env fru))"
  have "read_fru_data_msg (fst (request_or_complete env fru)) = read_fru_data_msg fru"
    by (rule read_fru_data_msg_params) (rule request_or_complete_params)
  moreover from m have "m = read_fru_data_msg fru"
    using fetch_complete_no_send [of m env fru]
    by (cases "send_rv env") (auto simp add: request_or_complete_sent)
  ultimately show ?thesis by simp
qed

lemma to_read_even:
  assumes "word_aligned fru"
  shows "even (unat (curr_pos fru)) \<and> even (to_read fru)"
proof -
  from assms have c: "even (curr_pos fru)" and d: "even (data_len fru)"
    and f: "even (fetch_size fru)"
    by (simp_all add: word_aligned_def)
  from c d have "even (data_len fru - curr_pos fru)" by simp
  then have "even (sint (data_len fru - curr_pos fru))" by (simp only: even_sint_iff)
  with f have "even (to_read fru)" by (simp add: to_read_def Let_def)
  moreover from c have "even (unat (curr_pos fru))" using odd_unat_iff [of "curr_pos fru"] by simp
  ultimately show ?thesis by simp
qed

lemma fru_data_handler_sends:
  assumes "Send_command m \<in> set (snd (fru_data_handler env rsp fru))"
  shows "m = read_fru_data_msg (fst (fru_data_handler env rsp fru))"
proof -
  let ?fru = "ipmi_fru_lock fru"
  let ?count = "push_bit (nat (access_by_words ?fru)) (uint (rsp_data rsp 1))"
  let ?cp = "memcpy_data (data ?fru) (unat (curr_pos ?fru))
                (take (nat ?count) (drop 1 (rsp_rest rsp)))"
  let ?f2 = "?fru\<lparr>data := fst ?cp, curr_pos := curr_pos ?fru + word_of_int ?count\<rparr>"
  have cp: "Send_command m \<notin> set (snd ?cp)"
    by (simp add: memcpy_data_def split: option.splits)
  consider (backoff) "deleted ?fru = 0"
        "is_backoff_cc env (rsp_cc rsp) \<and> fetch_size ?fru > MIN_FRU_DATA_FETCH"
    | (more) "deleted ?fru = 0"
        "\<not> (is_backoff_cc env (rsp_cc rsp) \<and> fetch_size ?fru > MIN_FRU_DATA_FETCH)"
        "rsp_cc rsp = 0" "\<not> rsp_data_len rsp < 2" "?count \<noteq> 0"
        "\<not> ?count > rsp_data_len rsp - 2" "curr_pos ?f2 < data_len ?f2"
    | (ends) "deleted ?fru \<noteq> 0
        \<or> (\<not> (is_backoff_cc env (rsp_cc rsp) \<and> fetch_size ?fru > MIN_FRU_DATA_FETCH)
           \<and> (rsp_cc rsp \<noteq> 0 \<or> rsp_data_len rsp < 2 \<or> ?count = 0
                \<or> ?count > rsp_data_len rsp - 2 \<or> \<not> curr_pos ?f2 < data_len ?f2))"
    by blast
  then show ?thesis
  proof cases
    case backoff
    then have "fru_data_handler env rsp fru =
        request_or_complete env (?fru\<lparr>fetch_size := fetch_size ?fru - FRU_DATA_FETCH_DECR\<rparr>)"
      by (simp add: fru_data_handler_def Let_def)
    with assms show ?thesis
      by (simp add: request_or_complete_sends)
  next
    case more
    then have eq: "fru_data_handler env rsp fru =
        (fst (request_or_complete env ?f2), snd ?cp @ snd (request_or_complete env ?f2))"
      by (auto simp add: fru_data_handler_def Let_def split_beta)
    with assms cp have "Send_command m \<in> set (snd (request_or_complete env ?f2))"
      by simp
    then show ?thesis
      by (simp add: eq request_or_complete_sends)
  next
    case ends
    then have "Send_command m \<notin> set (snd (fru_data_handler env rsp fru))"
      using cp fetch_complete_no_send
      by (auto simp add: fru_data_handler_def Let_def split_beta)
    with assms show ?thesis by simp
  qed
qed

lemma fru_data_handler_aligned:
  assumes "word_aligned fru"
  shows "word_aligned (fst (fru_data_handler env rsp fru))"
proof -
  let ?fru = "ipmi_fru_lock fru"
  let ?count = "push_bit (nat (access_by_words ?fru)) (uint (rsp_data rsp 1))"
  let ?cp = "memcpy_data (data ?fru) (unat (curr_pos ?fru))
                (take (nat ?count) (drop 1 (rsp_rest rsp)))"
  let ?f2 = "?fru\<lparr>data := fst ?cp, curr_pos := curr_pos ?fru + word_of_int ?count\<rparr>"
  from assms have a: "word_aligned ?fru"
    by (simp add: word_aligned_def ipmi_fru_lock_def)
  then have a1: "word_aligned (?fru\<lparr>fetch_size := fetch_size ?fru - FRU_DATA_FETCH_DECR\<rparr>)"
    by (simp add: word_aligned_def FRU_DATA_FETCH_DECR_def)
  from a have a2: "word_aligned (?fru\<lparr>data_len := curr_pos ?fru\<rparr>)"
    by (simp add: word_aligned_def)
  from a have "access_by_words ?fru = 1" by (simp add: word_aligned_def)
  then have "even (word_of_int ?count :: 32 word)"
    by (simp add: push_bit_eq_mult)
  with a have a3: "word_aligned ?f2"
    by (simp add: word_aligned_def)
  have fc: "word_aligned (fst (fetch_complete env f err)) = word_aligned f" for f err
    by (rule word_aligned_params) (rule fetch_complete_params)
  have rc: "word_aligned (fst (request_or_complete env f)) = word_aligned f" for f
    by (rule word_aligned_params) (rule request_or_complete_params)
  show ?thesis
    using a a1 a2 a3
    by (simp add: fru_data_handler_def Let_def split_beta fc rc)
qed

lemma fru_inventory_area_handler_sends:
  assumes "Send_command m \<in> set (snd (fru_inventory_area_handler env rsp fru))"
  shows "m = read_fru_data_msg (fst (fru_inventory_area_handler env rsp fru))"
proof -
  let ?fru = "ipmi_fru_lock fru"
  let ?f2 = "?fru\<lparr>data_len := ipmi_get_uint16 (rsp_data rsp 1) (rsp_data rsp 2),
                   access_by_words := uint (rsp_data rsp 3 AND 1)\<rparr>"
  let ?f3 = "?f2\<lparr>data := Some (replicate (unat (data_len ?f2)) 0)\<rparr>"
  show ?thesis
  proof (cases "deleted ?fru \<noteq> 0 \<or> rsp_cc rsp \<noteq> 0 \<or> rsp_data_len rsp < 4
                  \<or> data_len ?f2 < 8 \<or> \<not> mem_alloc_ok env")
    case True
    then have "Send_command m \<notin> set (snd (fru_inventory_area_handler env rsp fru))"
      using fetch_complete_no_send
      by (auto simp add: fru_inventory_area_handler_def Let_def split_beta)
    with assms show ?thesis by simp
  next
    case False
    then have "fru_inventory_area_handler env rsp fru = request_or_complete env ?f3"
      by (auto simp add: fru_inventory_area_handler_def Let_def)
    with assms show ?thesis
      by (simp add: request_or_complete_sends)
  qed
qed

lemma fru_inventory_area_handler_aligned:
  assumes cc: "rsp_cc rsp = 0" and len: "4 \<le> rsp_data_len rsp"
    and flag: "rsp_data rsp 3 AND 1 = 1"
    and size: "even (ipmi_get_uint16 (rsp_data rsp 1) (rsp_data rsp 2))"
  shows "word_aligned (fst (fru_inventory_area_handler env rsp (new_fru dev handler)))"
proof -
  let ?fru = "ipmi_fru_lock (new_fru dev handler)"
  let ?f2 = "?fru\<lparr>data_len := ipmi_get_uint16 (rsp_data rsp 1) (rsp_data rsp 2),
                   access_by_words := uint (rsp_data rsp 3 AND 1)\<rparr>"
  have a: "word_aligned ?f2"
    using flag size
    by (simp add: word_aligned_def ipmi_fru_lock_def new_fru_def MAX_FRU_DATA_FETCH_def)
  then have b: "word_aligned (?f2\<lparr>data := d\<rparr>)" for d
    by (simp add: word_aligned_def)
  have fc: "word_aligned (fst (fetch_complete env f err)) = word_aligned f" for f err
    by (rule word_aligned_params) (rule fetch_complete_params)
  have rc: "word_aligned (fst (request_or_complete env f)) = word_aligned f" for f
    by (rule word_aligned_params) (rule request_or_complete_params)
  have del: "deleted ?fru = 0" by (simp add: ipmi_fru_lock_def new_fru_def)
  have nl: "\<not> rsp_data_len rsp < 4" using len by simp
  show ?thesis
    using a b
    by (simp add: fru_inventory_area_handler_def Let_def split_beta fc rc cc nl del)
qed

lemma read_states_aligned:
  "word_aligned fru \<Longrightarrow> \<forall>f\<in>set (read_states fru steps). word_aligned f"
proof (induction steps arbitrary: fru)
  case Nil
  show ?case by simp
next
  case (Cons step steps)
  obtain env rsp where step: "step = (env, rsp)" by (cases step)
  from Cons.prems have "word_aligned (fst (fru_data_handler env rsp fru))"
    by (rule fru_data_handler_aligned)
  with Cons.IH [OF this] show ?case
    by (simp add: step)
qed

text \<open>
  Claim C6 says that on a word-access device the offset and the count of every read
  request are even before the shift, for any advertised length of at least 8. A
  word-access device that advertises 9 bytes: the first request is for the bytes from
  0 with \<open>to_read = 9\<close>, which is odd; the shift turns it into 4 words.
\<close>

theorem odd_area_request_is_odd:
  "access_by_words (fst (fru_inventory_area_handler example_env odd_area_rsp (new_fru 0 True))) = 1
   \<and> data_len (fst (fru_inventory_area_handler example_env odd_area_rsp (new_fru 0 True))) = 9
   \<and> snd (fru_inventory_area_handler example_env odd_area_rsp (new_fru 0 True)) =
       [Send_command (read_fru_data_msg
          (fst (fru_inventory_area_handler example_env odd_area_rsp (new_fru 0 True))))]
   \<and> curr_pos (fst (fru_inventory_area_handler example_env odd_area_rsp (new_fru 0 True))) = 0
   \<and> to_read (fst (fru_inventory_area_handler example_env odd_area_rsp (new_fru 0 True))) = 9
   \<and> odd (to_read (fst (fru_inventory_area_handler example_env odd_area_rsp (new_fru 0 True))))
   \<and> msg_data (read_fru_data_msg
        (fst (fru_inventory_area_handler example_env odd_area_rsp (new_fru 0 True)))) =
       [0, 0, 0, 4]"
  by (simp add: fru_inventory_area_handler_def odd_area_rsp_def new_fru_def example_env_def
        ipmi_fru_lock_def ipmi_fru_unlock_def rsp_data_len_def rsp_data_def
        ipmi_get_uint16_def ipmi_set_uint16_def request_or_complete_def request_next_data_def
        read_fru_data_msg_def to_read_def MAX_FRU_DATA_FETCH_def MAX_FRU_DATA_WRITE_def
        Let_def)

text \<open>
  Claim C6, amended: for a word-access device that advertises an even length. The
  inventory-area handler leaves a new FRU word-aligned (word access, and cursor,
  length and fetch size even) when the response sets the word flag and carries an even
  size; the data handler keeps a word-aligned FRU word-aligned, whatever the response;
  every request that either handler sends is the request built from the FRU it
  leaves; and in a word-aligned FRU \<open>curr_pos\<close> and \<open>to_read\<close>, the offset and the count
  before the shift, are even. So they are in every state of a read that starts
  word-aligned.
\<close>

theorem word_access_requests_even:
  "(rsp_cc rsp = 0 \<and> 4 \<le> rsp_data_len rsp \<and> rsp_data rsp 3 AND 1 = 1
      \<and> even (ipmi_get_uint16 (rsp_data rsp 1) (rsp_data rsp 2)) \<longrightarrow>
      word_aligned (fst (fru_inventory_area_handler env rsp (new_fru dev handler))))
   \<and> (\<forall>m. Send_command m \<in> set (snd (fru_inventory_area_handler env rsp fru)) \<longrightarrow>
          m = read_fru_data_msg (fst (fru_inventory_area_handler env rsp fru)))
   \<and> (word_aligned fru \<longrightarrow> word_aligned (fst (fru_data_handler env rsp fru)))
   \<and> (\<forall>m. Send_command m \<in> set (snd (fru_data_handler env rsp fru)) \<longrightarrow>
          m = read_fru_data_msg (fst (fru_data_handler env rsp fru)))
   \<and> (word_aligned fru \<longrightarrow>
          (\<forall>f\<in>set (read_states fru steps).
             access_by_words f = 1 \<and> even (unat (curr_pos f)) \<and> even (to_read f)))
   \<and> (word_aligned fru \<longrightarrow>
          access_by_words fru = 1 \<and> even (unat (curr_pos fru)) \<and> even (to_read fru))"
proof (intro conjI impI allI)
  assume "rsp_cc rsp = 0 \<and> 4 \<le> rsp_data_len rsp \<and> rsp_data rsp 3 AND 1 = 1
      \<and> even (ipmi_get_uint16 (rsp_data rsp 1) (rsp_data rsp 2))"
  then show "word_aligned (fst (fru_inventory_area_handler env rsp (new_fru dev handler)))"
    by (intro fru_inventory_area_handler_aligned) simp_all
next
  fix m
  assume "Send_command m \<in> set (snd (fru_inventory_area_handler env rsp fru))"
  then show "m = read_fru_data_msg (fst (fru_inventory_area_handler env rsp fru))"
    by (rule fru_inventory_area_handler_sends)
next
  assume "word_aligned fru"
  then show "word_aligned (fst (fru_data_handler env rsp fru))"
    by (rule fru_data_handler_aligned)
next
  fix m
  assume "Send_command m \<in> set (snd (fru_data_handler env rsp fru))"
  then show "m = read_fru_data_msg (fst (fru_data_handler env rsp fru))"
    by (rule fru_data_handler_sends)
next
  assume a: "word_aligned fru"
  show "\<forall>f\<in>set (read_states fru steps).
          access_by_words f = 1 \<and> even (unat (curr_pos f)) \<and> even (to_read f)"
  proof
    fix f
    assume "f \<in> set (read_states fru steps)"
    with read_states_aligned [OF a] have f: "word_aligned f" by blast
    then show "access_by_words f = 1 \<and> even (unat (curr_pos f)) \<and> even (to_read f)"
      using to_read_even [OF f] by (simp add: word_aligned_def)
  qed
next
  assume a: "word_aligned fru"
  then show "access_by_words fru = 1" by (simp add: word_aligned_def)
  from to_read_even [OF a] show "even (unat (curr_pos fru))" and "even (to_read fru)"
    by simp_all
qed


theorem word_access_requests_even_witness:
  "rsp_cc even_area_rsp = 0
   \<and> 4 \<le> rsp_data_len even_area_rsp
   \<and> rsp_data even_area_rsp 3 AND 1 = 1
   \<and> even (ipmi_get_uint16 (rsp_data even_area_rsp 1) (rsp_data even_area_rsp 2))
   \<and> word_aligned (fst (fru_inventory_area_handler example_env even_area_rsp (new_fru 0 True)))
   \<and> snd (fru_inventory_area_handler example_env even_area_rsp (new_fru 0 True)) =
       [Send_command \<lparr>cmd = IPMI_READ_FRU_DATA_CMD, msg_data = [0, 0, 0, 12]\<rparr>]
   \<and> to_read (fst (fru_inventory_area_handler example_env even_area_rsp (new_fru 0 True))) = 24
   \<and> even (to_read (fst (fru_inventory_area_handler example_env even_area_rsp (new_fru 0 True))))
   \<and> even (unat (curr_pos
         (fst (fru_inventory_area_handler example_env even_area_rsp (new_fru 0 True)))))
   \<and> even (to_read (fst (fru_data_handler example_env backoff_rsp
         (fst (fru_inventory_area_handler example_env even_area_rsp (new_fru 0 True))))))"
proof -
  let ?H0 = "fru_inventory_area_handler example_env even_area_rsp (new_fru 0 True)"
  have h: "rsp_cc even_area_rsp = 0" "4 \<le> rsp_data_len even_area_rsp"
    "rsp_data even_area_rsp 3 AND 1 = 1"
    "even (ipmi_get_uint16 (rsp_data even_area_rsp 1) (rsp_data even_area_rsp 2))"
    by (simp_all add: even_area_rsp_def rsp_data_len_def rsp_data_def ipmi_get_uint16_def)
  have run: "?H0 =
      ((new_fru 0 True)\<lparr>lock := False, data_len := 24, access_by_words := 1,
          data := Some (replicate 24 0)\<rparr>,
       [Send_command \<lparr>cmd = IPMI_READ_FRU_DATA_CMD, msg_data = [0, 0, 0, 12]\<rparr>])"
    by (simp add: fru_inventory_area_handler_def even_area_rsp_def new_fru_def example_env_def
        ipmi_fru_lock_def ipmi_fru_unlock_def rsp_data_len_def rsp_data_def
        ipmi_get_uint16_def ipmi_set_uint16_def request_or_complete_def request_next_data_def
        read_fru_data_msg_def to_read_def MAX_FRU_DATA_FETCH_def MAX_FRU_DATA_WRITE_def
        Let_def)
  note t = word_access_requests_even
  have a: "word_aligned (fst ?H0)"
    using t [of even_area_rsp example_env 0 True "new_fru 0 True" "[]", THEN conjunct1] h
    by blast
  note u = t [of even_area_rsp example_env 0 True "fst ?H0" "[(example_env, backoff_rsp)]"]
  have b: "access_by_words (fst ?H0) = 1 \<and> even (unat (curr_pos (fst ?H0)))
           \<and> even (to_read (fst ?H0))"
    using u [THEN conjunct2, THEN conjunct2, THEN conjunct2, THEN conjunct2, THEN conjunct2] a
    by blast
  have "\<forall>f\<in>set (read_states (fst ?H0) [(example_env, backoff_rsp)]).
          access_by_words f = 1 \<and> even (unat (curr_pos f)) \<and> even (to_read f)"
    using u [THEN conjunct2, THEN conjunct2, THEN conjunct2, THEN conjunct2, THEN conjunct1] a
    by blast
  then have c: "even (to_read (fst (fru_data_handler example_env backoff_rsp (fst ?H0))))"
    by simp
  have d: "to_read (fst ?H0) = 24"
    unfolding run by (simp add: to_read_def new_fru_def MAX_FRU_DATA_FETCH_def)
  from h a b c d show ?thesis
    by (simp add: run)
qed

section \<open>Writing: the batching loop and the completion routine\<close>

declare write_loop.simps(2) [simp del]

lemma write_loop_step:
  "write_loop noff len left (r # rs) =
     (if left > 0 \<and> noff = uint (offset r) then
        (if left < uint (length_u r) then
           write_loop (noff + left) (len + left) 0
             (r\<lparr>length_u := length_u r - word_of_int left,
                offset := offset r + word_of_int left\<rparr> # rs)
         else write_loop (noff + uint (length_u r)) (len + uint (length_u r))
                (left - uint (length_u r)) rs)
      else (noff, len, left, r # rs))"
proof (cases "left > 0 \<and> noff = uint (offset r)")
  case False
  then show ?thesis by (subst write_loop.simps(2)) auto
next
  case True
  show ?thesis
  proof (cases "left < uint (length_u r)")
    case short: True
    have "length_u r - word_of_int left \<noteq> 0"
    proof
      assume "length_u r - word_of_int left = 0"
      then have "length_u r = word_of_int left" by simp
      then have "uint (length_u r) = uint (word_of_int left :: 16 word)" by simp
      also have "\<dots> = left mod 2 ^ 16" by (simp add: uint_word_of_int)
      also have "\<dots> \<le> left" using True by (simp add: zmod_le_nonneg_dividend)
      finally show False using short by simp
    qed
    then have "0 < length_u r - word_of_int left" by (simp add: word_greater_zero_iff)
    with True short show ?thesis
      by (subst write_loop.simps(2)) (simp add: Let_def)
  next
    case False
    with True show ?thesis
      by (subst write_loop.simps(2)) (simp add: Let_def)
  qed
qed

lemma write_loop_stop:
  "left \<le> 0 \<Longrightarrow> write_loop noff len left recs = (noff, len, left, recs)"
  by (cases recs) (simp_all add: write_loop_step)

lemma write_loop_inv:
  assumes "write_loop noff len left recs = (noff', len', left', recs')" and "0 \<le> left"
  shows "0 \<le> left' \<and> left' \<le> left \<and> len' = len + (left - left') \<and> noff' = noff + (left - left')"
  using assms
proof (induction recs arbitrary: noff len left)
  case Nil
  then show ?case by simp
next
  case (Cons r rs)
  show ?case
  proof (cases "left > 0 \<and> noff = uint (offset r)")
    case False
    with Cons.prems show ?thesis by (simp add: write_loop_step)
  next
    case True
    show ?thesis
    proof (cases "left < uint (length_u r)")
      case short: True
      with True Cons.prems show ?thesis
        by (simp add: write_loop_step write_loop_stop)
    next
      case False
      with True Cons.prems have
        rec: "write_loop (noff + uint (length_u r)) (len + uint (length_u r))
                (left - uint (length_u r)) rs = (noff', len', left', recs')"
        by (simp add: write_loop_step)
      have nonneg: "0 \<le> left - uint (length_u r)" using False by simp
      have ih: "0 \<le> left' \<and> left' \<le> left - uint (length_u r)
                \<and> len' = len + uint (length_u r) + (left - uint (length_u r) - left')
                \<and> noff' = noff + uint (length_u r) + (left - uint (length_u r) - left')"
        using Cons.IH [OF rec nonneg] .
      have "0 \<le> uint (length_u r)" by simp
      with ih show ?thesis by presburger
    qed
  qed
qed

lemma write_complete_eq:
  "write_complete env fru err =
     (let snap = fru\<lparr>data := None, in_use := 0, lock := False\<rparr>
      in (fst (fru_put snap),
          (if err = None then [Ops_write_complete] else [])
          @ (if data fru \<noteq> None then [Mem_free] else [])
          @ (if domain_fetched_handler fru then [Domain_fetched_handler err snap] else [])
          @ (if refcount fru = 1 then [Final_fru_destroy] else [])))"
  by (simp add: write_complete_def Let_def split_beta ipmi_fru_unlock_def fru_put_snd)

lemma write_complete_fields:
  "in_use (fst (write_complete env fru err)) = 0"
  "data (fst (write_complete env fru err)) = None"
  "lock (fst (write_complete env fru err)) = False"
  "retry_count (fst (write_complete env fru err)) = retry_count fru"
  "last_cmd (fst (write_complete env fru err)) = last_cmd fru"
  "last_cmd_len (fst (write_complete env fru err)) = last_cmd_len fru"
  "refcount (fst (write_complete env fru err)) = refcount fru - 1"
  by (simp_all add: write_complete_eq Let_def fru_put_fst)

lemma write_complete_no_send: "Send_command m \<notin> set (snd (write_complete env fru err))"
  by (simp add: write_complete_eq Let_def)

lemma busy_retry_step:
  assumes "rsp_cc rsp = 0x81" "retry_count fru < MAX_FRU_WRITE_RETRIES"
  shows "fru_write_handler env rsp fru =
     (case send_rv env of
        None \<Rightarrow>
          (fru\<lparr>lock := False, retry_count := retry_count fru + 1\<rparr>,
           [Send_command \<lparr>cmd = IPMI_WRITE_FRU_DATA_CMD,
                          msg_data = take (unat (last_cmd_len fru)) (last_cmd fru)\<rparr>])
      | Some e \<Rightarrow>
          (fst (write_complete env (fru\<lparr>lock := True, retry_count := retry_count fru + 1\<rparr>) (Some e)),
           Send_command \<lparr>cmd = IPMI_WRITE_FRU_DATA_CMD,
                         msg_data = take (unat (last_cmd_len fru)) (last_cmd fru)\<rparr>
           # snd (write_complete env (fru\<lparr>lock := True, retry_count := retry_count fru + 1\<rparr>) (Some e))))"
  using assms
  by (simp add: fru_write_handler_def Let_def ipmi_fru_lock_def ipmi_fru_unlock_def
        not_le [symmetric] split: option.splits prod.splits)

lemma busy_ceiling_step:
  assumes "rsp_cc rsp = 0x81" "retry_count fru \<ge> MAX_FRU_WRITE_RETRIES"
  shows "fru_write_handler env rsp fru =
           write_complete env (fru\<lparr>lock := True\<rparr>) (Some (IPMI_IPMI_ERR_VAL 0x81))"
  using assms by (simp add: fru_write_handler_def Let_def ipmi_fru_lock_def)

lemma next_fru_write_eq:
  assumes q: "update_recs fru = r # rs"
    and loop: "write_loop (uint (offset r)) 0 MAX_FRU_DATA_WRITE (r # rs) = (noff, len, left, recs)"
  shows "next_fru_write env fru =
     (send_rv env,
      fru\<lparr>update_recs := recs, retry_count := 0,
          last_cmd := array_write (last_cmd fru) 0
            (device_id fru
             # ipmi_set_uint16 (word_of_int (drop_bit (nat (access_by_words fru)) (uint (offset r))))
             @ fst (memcpy_from (data fru) (unat (offset r)) (nat len))),
          last_cmd_len := word_of_int (len + 3)\<rparr>,
      snd (memcpy_from (data fru) (unat (offset r)) (nat len))
      @ [Send_command \<lparr>cmd = IPMI_WRITE_FRU_DATA_CMD,
           msg_data = take (nat (len + 3))
             (array_write (last_cmd fru) 0
               (device_id fru
                # ipmi_set_uint16 (word_of_int (drop_bit (nat (access_by_words fru)) (uint (offset r))))
                @ fst (memcpy_from (data fru) (unat (offset r)) (nat len))))\<rparr>])"
  using q loop
  by (simp add: next_fru_write_def Let_def split: prod.splits)

lemma write_loop_len:
  assumes "write_loop noff 0 MAX_FRU_DATA_WRITE recs = (noff', len, left, recs')"
  shows "0 \<le> len \<and> len \<le> 16 \<and> noff' = noff + len \<and> left = 16 - len"
proof -
  have "0 \<le> MAX_FRU_DATA_WRITE" by (simp add: MAX_FRU_DATA_WRITE_def)
  from write_loop_inv [OF assms this] show ?thesis
    by (auto simp: MAX_FRU_DATA_WRITE_def)
qed

lemma retry_count_below:
  "n < 30 \<Longrightarrow> (of_nat n :: 32 word) < MAX_FRU_WRITE_RETRIES"
  by (simp add: MAX_FRU_WRITE_RETRIES_def word_less_nat_alt unat_of_nat)

lemma busy_iter:
  assumes busy: "rsp_cc rsp = 0x81" and ok: "send_rv env = None"
    and r0: "retry_count f0 = 0"
  shows "n \<le> 30 \<Longrightarrow>
         ((\<lambda>f. fst (fru_write_handler env rsp f)) ^^ n) f0 =
           (if n = 0 then f0 else f0\<lparr>lock := False, retry_count := of_nat n\<rparr>)"
proof (induction n)
  case 0
  show ?case by simp
next
  case (Suc n)
  then have n: "n < 30" by simp
  let ?fn = "((\<lambda>f. fst (fru_write_handler env rsp f)) ^^ n) f0"
  have fn: "?fn = (if n = 0 then f0 else f0\<lparr>lock := False, retry_count := of_nat n\<rparr>)"
    using Suc by simp
  then have rc: "retry_count ?fn = of_nat n"
    using r0 by (simp split: if_splits)
  then have "retry_count ?fn < MAX_FRU_WRITE_RETRIES"
    using n by (simp add: retry_count_below)
  from busy_retry_step [OF busy this, of env] ok
  have "fst (fru_write_handler env rsp ?fn) = ?fn\<lparr>lock := False, retry_count := retry_count ?fn + 1\<rparr>"
    by simp
  with rc fn show ?case
    by (simp split: if_splits)
qed

lemma next_fru_write_built:
  assumes q: "update_recs fru \<noteq> []"
  shows "retry_count (fst (snd (next_fru_write env fru))) = 0
     \<and> last (snd (snd (next_fru_write env fru))) =
         Send_command \<lparr>cmd = IPMI_WRITE_FRU_DATA_CMD,
           msg_data = take (unat (last_cmd_len (fst (snd (next_fru_write env fru)))))
                        (last_cmd (fst (snd (next_fru_write env fru))))\<rparr>
     \<and> 3 \<le> unat (last_cmd_len (fst (snd (next_fru_write env fru))))
     \<and> unat (last_cmd_len (fst (snd (next_fru_write env fru)))) \<le> 19"
proof -
  from q obtain r rs where rs: "update_recs fru = r # rs" by (cases "update_recs fru") auto
  obtain noff len left recs where
    loop: "write_loop (uint (offset r)) 0 MAX_FRU_DATA_WRITE (r # rs) = (noff, len, left, recs)"
    using prod_cases4 by blast
  from write_loop_len [OF loop] have len: "0 \<le> len" "len \<le> 16" by simp_all
  then have u: "unat (word_of_int (len + 3) :: 32 word) = nat (len + 3)"
    by (intro unat_small_int) simp_all
  have fields: "retry_count (fst (snd (next_fru_write env fru))) = 0"
    "last_cmd_len (fst (snd (next_fru_write env fru))) = word_of_int (len + 3)"
    by (simp_all add: next_fru_write_eq [OF rs loop])
  have sent: "last (snd (snd (next_fru_write env fru))) =
         Send_command \<lparr>cmd = IPMI_WRITE_FRU_DATA_CMD,
           msg_data = take (nat (len + 3)) (last_cmd (fst (snd (next_fru_write env fru))))\<rparr>"
    by (simp add: next_fru_write_eq [OF rs loop])
  show ?thesis
    unfolding fields sent u using len by auto
qed

section \<open>Writing: device-busy retry\<close>

text \<open>
  Claim C3. A response to a Write FRU Data command with completion code 0x81. While
  \<open>retry_count\<close> is below 30 the handler adds one to it and sends the saved command,
  the first \<open>last_cmd_len\<close> bytes of \<open>last_cmd\<close>, again; when the send succeeds that
  is all it does. At 30 it completes the write with the IPMI error of 0x81, which the
  callback gets. \<open>next_fru_write\<close> sets \<open>retry_count\<close> to 0 and sends exactly the
  bytes it saves, so after a new command the first 30 busy responses each resend the
  bytes of that command, and the 31st ends the write without a send.
\<close>

theorem fru_write_handler_busy_retry:
  assumes busy: "rsp_cc rsp = 0x81"
  shows
    "(retry_count fru < MAX_FRU_WRITE_RETRIES \<longrightarrow>
        retry_count (fst (fru_write_handler env rsp fru)) = retry_count fru + 1
      \<and> take 1 (snd (fru_write_handler env rsp fru)) =
          [Send_command \<lparr>cmd = IPMI_WRITE_FRU_DATA_CMD,
                         msg_data = take (unat (last_cmd_len fru)) (last_cmd fru)\<rparr>]
      \<and> (send_rv env = None \<longrightarrow>
            fru_write_handler env rsp fru =
              (fru\<lparr>lock := False, retry_count := retry_count fru + 1\<rparr>,
               [Send_command \<lparr>cmd = IPMI_WRITE_FRU_DATA_CMD,
                              msg_data = take (unat (last_cmd_len fru)) (last_cmd fru)\<rparr>])))
     \<and> (MAX_FRU_WRITE_RETRIES \<le> retry_count fru \<longrightarrow>
          in_use (fst (fru_write_handler env rsp fru)) = 0
        \<and> snd (fru_write_handler env rsp fru) =
            (if data fru \<noteq> None then [Mem_free] else [])
            @ (if domain_fetched_handler fru
               then [Domain_fetched_handler (Some (IPMI_IPMI_ERR_VAL 0x81))
                       (fru\<lparr>lock := False, data := None, in_use := 0\<rparr>)]
               else [])
            @ (if refcount fru = 1 then [Final_fru_destroy] else []))
     \<and> (update_recs fru \<noteq> [] \<longrightarrow>
          retry_count (fst (snd (next_fru_write env fru))) = 0
        \<and> last (snd (snd (next_fru_write env fru))) =
            Send_command \<lparr>cmd = IPMI_WRITE_FRU_DATA_CMD,
              msg_data = take (unat (last_cmd_len (fst (snd (next_fru_write env fru)))))
                           (last_cmd (fst (snd (next_fru_write env fru))))\<rparr>)
     \<and> (update_recs fru \<noteq> [] \<and> send_rv env = None \<longrightarrow>
          (\<forall>n\<le>30.
             retry_count (((\<lambda>f. fst (fru_write_handler env rsp f)) ^^ n)
                            (fst (snd (next_fru_write env fru)))) = of_nat n
           \<and> (n < 30 \<longrightarrow>
                snd (fru_write_handler env rsp
                      (((\<lambda>f. fst (fru_write_handler env rsp f)) ^^ n)
                         (fst (snd (next_fru_write env fru))))) =
                  [last (snd (snd (next_fru_write env fru)))])
           \<and> (n = 30 \<longrightarrow>
                in_use (fst (fru_write_handler env rsp
                      (((\<lambda>f. fst (fru_write_handler env rsp f)) ^^ n)
                         (fst (snd (next_fru_write env fru)))))) = 0
              \<and> (\<forall>m. Send_command m \<notin> set (snd (fru_write_handler env rsp
                      (((\<lambda>f. fst (fru_write_handler env rsp f)) ^^ n)
                         (fst (snd (next_fru_write env fru))))))))))"
proof (intro conjI impI allI)
  assume below: "retry_count fru < MAX_FRU_WRITE_RETRIES"
  note step = busy_retry_step [OF busy below, of env]
  show "retry_count (fst (fru_write_handler env rsp fru)) = retry_count fru + 1"
    by (simp add: step write_complete_fields split: option.splits)
  show "take 1 (snd (fru_write_handler env rsp fru)) =
          [Send_command \<lparr>cmd = IPMI_WRITE_FRU_DATA_CMD,
                         msg_data = take (unat (last_cmd_len fru)) (last_cmd fru)\<rparr>]"
    by (simp add: step split: option.splits)
  show "fru_write_handler env rsp fru =
              (fru\<lparr>lock := False, retry_count := retry_count fru + 1\<rparr>,
               [Send_command \<lparr>cmd = IPMI_WRITE_FRU_DATA_CMD,
                              msg_data = take (unat (last_cmd_len fru)) (last_cmd fru)\<rparr>])"
    if "send_rv env = None"
    using that by (simp add: step)
next
  assume ceiling: "MAX_FRU_WRITE_RETRIES \<le> retry_count fru"
  note stop = busy_ceiling_step [OF busy ceiling, of env]
  show "in_use (fst (fru_write_handler env rsp fru)) = 0"
    by (simp add: stop write_complete_fields)
  show "snd (fru_write_handler env rsp fru) =
            (if data fru \<noteq> None then [Mem_free] else [])
            @ (if domain_fetched_handler fru
               then [Domain_fetched_handler (Some (IPMI_IPMI_ERR_VAL 0x81))
                       (fru\<lparr>lock := False, data := None, in_use := 0\<rparr>)]
               else [])
            @ (if refcount fru = 1 then [Final_fru_destroy] else [])"
    by (simp add: stop write_complete_eq Let_def)
next
  assume q: "update_recs fru \<noteq> []"
  from next_fru_write_built [OF q, of env]
  show "retry_count (fst (snd (next_fru_write env fru))) = 0"
    and "last (snd (snd (next_fru_write env fru))) =
            Send_command \<lparr>cmd = IPMI_WRITE_FRU_DATA_CMD,
              msg_data = take (unat (last_cmd_len (fst (snd (next_fru_write env fru)))))
                           (last_cmd (fst (snd (next_fru_write env fru))))\<rparr>"
    by simp_all
next
  fix n :: nat
  assume pre: "update_recs fru \<noteq> [] \<and> send_rv env = None" and n: "n \<le> 30"
  then have q: "update_recs fru \<noteq> []" and ok: "send_rv env = None" by simp_all
  let ?built = "fst (snd (next_fru_write env fru))"
  let ?fn = "((\<lambda>f. fst (fru_write_handler env rsp f)) ^^ n) ?built"
  note built = next_fru_write_built [OF q, of env]
  from built have r0: "retry_count ?built = 0" by simp
  have fn: "?fn = (if n = 0 then ?built else ?built\<lparr>lock := False, retry_count := of_nat n\<rparr>)"
    by (rule busy_iter [OF busy ok r0 n])
  show rc: "retry_count ?fn = of_nat n"
    using r0 by (simp add: fn)
  have same: "last_cmd ?fn = last_cmd ?built" "last_cmd_len ?fn = last_cmd_len ?built"
    by (simp_all add: fn)
  show "snd (fru_write_handler env rsp ?fn) = [last (snd (snd (next_fru_write env fru)))]"
    if "n < 30"
  proof -
    from that have "retry_count ?fn < MAX_FRU_WRITE_RETRIES"
      unfolding rc by (rule retry_count_below)
    from busy_retry_step [OF busy this, of env] ok
    have "snd (fru_write_handler env rsp ?fn) =
           [Send_command \<lparr>cmd = IPMI_WRITE_FRU_DATA_CMD,
                          msg_data = take (unat (last_cmd_len ?fn)) (last_cmd ?fn)\<rparr>]"
      by simp
    with same built show ?thesis by simp
  qed
  show "in_use (fst (fru_write_handler env rsp ?fn)) = 0" if "n = 30"
  proof -
    from that have "MAX_FRU_WRITE_RETRIES \<le> retry_count ?fn"
      unfolding rc by (simp add: MAX_FRU_WRITE_RETRIES_def)
    from busy_ceiling_step [OF busy this, of env] show ?thesis
      by (simp add: write_complete_fields)
  qed
  show "Send_command m \<notin> set (snd (fru_write_handler env rsp ?fn))" if "n = 30" for m
  proof -
    from that have "MAX_FRU_WRITE_RETRIES \<le> retry_count ?fn"
      unfolding rc by (simp add: MAX_FRU_WRITE_RETRIES_def)
    from busy_ceiling_step [OF busy this, of env] show ?thesis
      by (simp add: write_complete_no_send)
  qed
qed


theorem fru_write_handler_busy_retry_witness:
  "rsp_cc busy_rsp = 0x81
   \<and> update_recs writing_fru \<noteq> []
   \<and> send_rv example_env = None
   \<and> last (snd (snd (next_fru_write example_env writing_fru))) =
        Send_command \<lparr>cmd = IPMI_WRITE_FRU_DATA_CMD, msg_data = [0, 4, 0, 4, 5, 6, 7]\<rparr>
   \<and> fru_write_handler example_env busy_rsp (fst (snd (next_fru_write example_env writing_fru))) =
        ((fst (snd (next_fru_write example_env writing_fru)))\<lparr>lock := False, retry_count := 1\<rparr>,
         [Send_command \<lparr>cmd = IPMI_WRITE_FRU_DATA_CMD, msg_data = [0, 4, 0, 4, 5, 6, 7]\<rparr>])
   \<and> snd (fru_write_handler example_env busy_rsp
          ((fst (snd (next_fru_write example_env writing_fru)))\<lparr>retry_count := 30\<rparr>)) =
        [Mem_free,
         Domain_fetched_handler (Some (IPMI_IPMI_ERR_VAL 0x81))
           ((fst (snd (next_fru_write example_env writing_fru)))
              \<lparr>retry_count := 30, lock := False, data := None, in_use := 0\<rparr>)]"
proof -
  let ?built = "fst (snd (next_fru_write example_env writing_fru))"
  have h1: "rsp_cc busy_rsp = 0x81" by (simp add: busy_rsp_def)
  have h2: "update_recs writing_fru \<noteq> []" by (simp add: writing_fru_def)
  have h3: "send_rv example_env = None" by (simp add: example_env_def)
  have built: "?built =
      writing_fru\<lparr>update_recs := [], retry_count := 0,
        last_cmd := [0, 4, 0, 4, 5, 6, 7] @ replicate 13 0,
        last_cmd_len := 7\<rparr>"
    by (simp add: next_fru_write_def writing_fru_def new_fru_def write_loop_step
          MAX_FRU_DATA_WRITE_def Let_def memcpy_from_def array_write_def ipmi_set_uint16_def)
  note t = fru_write_handler_busy_retry [OF h1]
  note t1 = t [of writing_fru example_env, THEN conjunct2, THEN conjunct2, THEN conjunct1,
               THEN mp, OF h2, THEN conjunct2]
  have a: "last (snd (snd (next_fru_write example_env writing_fru))) =
        Send_command \<lparr>cmd = IPMI_WRITE_FRU_DATA_CMD, msg_data = [0, 4, 0, 4, 5, 6, 7]\<rparr>"
    unfolding t1 by (simp add: built)
  have below: "retry_count ?built < MAX_FRU_WRITE_RETRIES"
    by (simp add: built MAX_FRU_WRITE_RETRIES_def)
  note t2 = t [of ?built example_env, THEN conjunct1, THEN mp, OF below,
               THEN conjunct2, THEN conjunct2, THEN mp, OF h3]
  have b: "fru_write_handler example_env busy_rsp ?built =
        (?built\<lparr>lock := False, retry_count := 1\<rparr>,
         [Send_command \<lparr>cmd = IPMI_WRITE_FRU_DATA_CMD, msg_data = [0, 4, 0, 4, 5, 6, 7]\<rparr>])"
    unfolding t2 by (simp add: built)
  have ceiling: "MAX_FRU_WRITE_RETRIES \<le> retry_count (?built\<lparr>retry_count := 30\<rparr>)"
    by (simp add: MAX_FRU_WRITE_RETRIES_def)
  note t3 = t [of "?built\<lparr>retry_count := 30\<rparr>" example_env, THEN conjunct2, THEN conjunct1,
               THEN mp, OF ceiling, THEN conjunct2]
  have c: "snd (fru_write_handler example_env busy_rsp (?built\<lparr>retry_count := 30\<rparr>)) =
        [Mem_free,
         Domain_fetched_handler (Some (IPMI_IPMI_ERR_VAL 0x81))
           (?built\<lparr>retry_count := 30, lock := False, data := None, in_use := 0\<rparr>)]"
    unfolding t3 by (simp add: built, simp add: writing_fru_def new_fru_def)
  from h1 h2 h3 a b c show ?thesis by simp
qed



section \<open>Writing: the bytes gathered into one command\<close>

lemma total_length_simps [simp]:
  "total_length [] = 0"
  "total_length (r # rs) = uint (length_u r) + total_length rs"
  by (simp_all add: total_length_def)

lemma total_length_nonneg: "0 \<le> total_length rs"
  by (induction rs) simp_all

lemma write_loop_structure:
  assumes "write_loop noff len left recs = (noff', len', left', recs')" and "0 \<le> left"
  shows "\<exists>consumed rest.
           recs = consumed @ rest \<and> contiguous noff consumed \<and> total_length consumed \<le> left
           \<and> ((recs' = rest \<and> len' = len + total_length consumed
                \<and> left' = left - total_length consumed
                \<and> (rest = [] \<or> left' = 0
                    \<or> uint (offset (hd rest)) \<noteq> noff + total_length consumed))
              \<or> (\<exists>p rest'.
                    rest = p # rest' \<and> uint (offset p) = noff + total_length consumed
                    \<and> total_length consumed < left
                    \<and> left - total_length consumed < uint (length_u p)
                    \<and> len' = len + left \<and> left' = 0
                    \<and> recs' =
                        p\<lparr>length_u := length_u p - word_of_int (left - total_length consumed),
                          offset := offset p + word_of_int (left - total_length consumed)\<rparr>
                        # rest'))"
  using assms
proof (induction recs arbitrary: noff len left)
  case Nil
  then have "recs' = [] \<and> len' = len \<and> left' = left" by simp
  with Nil.prems(2) show ?case
    by (intro exI [of _ "[]"]) simp
next
  case (Cons r rs)
  show ?case
  proof (cases "left > 0 \<and> noff = uint (offset r)")
    case False
    with Cons.prems have res: "recs' = r # rs" "len' = len" "left' = left" "noff' = noff"
      by (simp_all add: write_loop_step)
    from False Cons.prems(2) have "left = 0 \<or> uint (offset r) \<noteq> noff" by auto
    with res Cons.prems(2) show ?thesis
      apply -
      apply (rule exI [of _ "[]"])
      apply (rule exI [of _ "r # rs"])
      by auto
  next
    case True
    show ?thesis
    proof (cases "left < uint (length_u r)")
      case short: True
      with True Cons.prems have res:
        "recs' = r\<lparr>length_u := length_u r - word_of_int left,
                   offset := offset r + word_of_int left\<rparr> # rs"
        "len' = len + left" "left' = 0"
        by (simp_all add: write_loop_step write_loop_stop)
      show ?thesis
        apply (rule exI [of _ "[]"])
        apply (rule exI [of _ "r # rs"])
        using True short res Cons.prems(2) by simp
    next
      case False
      let ?L = "uint (length_u r)"
      from True False Cons.prems have
        rec: "write_loop (noff + ?L) (len + ?L) (left - ?L) rs = (noff', len', left', recs')"
        by (simp add: write_loop_step)
      have nonneg: "0 \<le> left - ?L" using False by simp
      from Cons.IH [OF rec nonneg] obtain consumed rest where
        split: "rs = consumed @ rest" and chain: "contiguous (noff + ?L) consumed"
        and fits: "total_length consumed \<le> left - ?L"
        and alt: "(recs' = rest \<and> len' = len + ?L + total_length consumed
                \<and> left' = left - ?L - total_length consumed
                \<and> (rest = [] \<or> left' = 0
                    \<or> uint (offset (hd rest)) \<noteq> noff + ?L + total_length consumed))
              \<or> (\<exists>p rest'.
                    rest = p # rest' \<and> uint (offset p) = noff + ?L + total_length consumed
                    \<and> total_length consumed < left - ?L
                    \<and> left - ?L - total_length consumed < uint (length_u p)
                    \<and> len' = len + ?L + (left - ?L) \<and> left' = 0
                    \<and> recs' =
                        p\<lparr>length_u := length_u p - word_of_int (left - ?L - total_length consumed),
                          offset := offset p + word_of_int (left - ?L - total_length consumed)\<rparr>
                        # rest')"
        by blast
      have c1: "r # rs = (r # consumed) @ rest" using split by simp
      have c2: "contiguous noff (r # consumed)" using True chain by simp
      have c3: "total_length (r # consumed) \<le> left" using fits by simp
      define T where "T = total_length (r # consumed)"
      have eq: "left - ?L - total_length consumed = left - T"
        "noff + ?L + total_length consumed = noff + T"
        "len + ?L + total_length consumed = len + T"
        "len + ?L + (left - ?L) = len + left"
        "(total_length consumed < left - ?L) = (T < left)"
        by (auto simp add: T_def)
      have c4: "(recs' = rest \<and> len' = len + T
                \<and> left' = left - T
                \<and> (rest = [] \<or> left' = 0
                    \<or> uint (offset (hd rest)) \<noteq> noff + T))
              \<or> (\<exists>p rest'.
                    rest = p # rest' \<and> uint (offset p) = noff + T
                    \<and> T < left
                    \<and> left - T < uint (length_u p)
                    \<and> len' = len + left \<and> left' = 0
                    \<and> recs' =
                        p\<lparr>length_u := length_u p - word_of_int (left - T),
                          offset := offset p + word_of_int (left - T)\<rparr>
                        # rest')"
        using alt unfolding eq .
      from c1 c2 c3 c4 [unfolded T_def] show ?thesis by blast
    qed
  qed
qed

lemma uint_sub_small:
  fixes x :: "16 word"
  assumes "0 \<le> c" and "c \<le> uint x"
  shows "uint (x - word_of_int c) = uint x - c"
proof -
  have "uint x < 65536" using uint_bounded [of x] by simp
  with assms have c: "uint (word_of_int c :: 16 word) = c"
    by (simp add: uint_word_of_int)
  have "uint (x - word_of_int c) = (uint x - c) mod 65536"
    by (simp add: uint_word_arith_bintrs c take_bit_eq_mod)
  also have "\<dots> = uint x - c"
    using assms \<open>uint x < 65536\<close> by simp
  finally show ?thesis .
qed

lemma uint_add_small:
  fixes x :: "16 word"
  assumes "0 \<le> c" and "uint x + c < 65536"
  shows "uint (x + word_of_int c) = uint x + c"
proof -
  have "0 \<le> uint x" by simp
  with assms have "c < 65536" by linarith
  with assms have c: "uint (word_of_int c :: 16 word) = c"
    by (simp add: uint_word_of_int)
  have "uint (x + word_of_int c) = (uint x + c) mod 65536"
    by (simp add: uint_word_arith_bintrs c take_bit_eq_mod)
  also have "\<dots> = uint x + c"
    using assms by simp
  finally show ?thesis .
qed

lemma memcpy_from_length: "length (fst (memcpy_from src pos n)) = n"
  by (auto simp add: memcpy_from_def min_def split: option.splits)

lemma memcpy_from_in_range:
  "src = Some buf \<Longrightarrow> pos + n \<le> length buf \<Longrightarrow>
   memcpy_from src pos n = (take n (drop pos buf), [])"
  by (simp add: memcpy_from_def)

lemma array_write_prefix:
  "length src \<le> length arr \<Longrightarrow> take (length src) (array_write arr 0 src) = src"
  by (simp add: array_write_def)

text \<open>
  Claim C7. \<open>next_fru_write\<close> on a queue whose head is \<open>r\<close>, where the loop ends with
  \<open>len\<close> bytes gathered and the queue \<open>recs\<close>. The command sent carries the device id,
  the head's offset shifted by \<open>access_by_words\<close>, and \<open>len\<close> bytes of the buffer taken
  from the head's offset on, with \<open>len\<close> at most 16. The queue splits into the records
  the loop used up and the rest: the records used up follow one another without a gap
  from the head's offset, each starting at the cursor the loop had reached. Either the
  loop used up whole records only; then \<open>len\<close> is their total, the rest is the new
  queue, and the loop ended because the queue was empty, 16 bytes were gathered, or the
  next record does not start at the cursor. Or the next record starts at the cursor and
  is longer than what is left of the 16 bytes; then the command is full, and that record
  stays at the head of the queue with its length reduced and its offset advanced (in
  the 16 bits of the field) by the bytes taken from it.
\<close>

theorem next_fru_write_batch:
  assumes q: "update_recs fru = r # rs"
    and arr: "length (last_cmd fru) = nat (MAX_FRU_DATA_WRITE + 4)"
    and loop: "write_loop (uint (offset r)) 0 MAX_FRU_DATA_WRITE (r # rs) = (noff, len, left, recs)"
  shows
    "0 \<le> len \<and> len \<le> MAX_FRU_DATA_WRITE
     \<and> update_recs (fst (snd (next_fru_write env fru))) = recs
     \<and> last (snd (snd (next_fru_write env fru))) =
         Send_command \<lparr>cmd = IPMI_WRITE_FRU_DATA_CMD,
           msg_data = device_id fru
             # ipmi_set_uint16
                 (word_of_int (drop_bit (nat (access_by_words fru)) (uint (offset r))))
             @ fst (memcpy_from (data fru) (unat (offset r)) (nat len))\<rparr>
     \<and> length (fst (memcpy_from (data fru) (unat (offset r)) (nat len))) = nat len
     \<and> (\<forall>buf. data fru = Some buf \<and> unat (offset r) + nat len \<le> length buf \<longrightarrow>
           fst (memcpy_from (data fru) (unat (offset r)) (nat len)) =
             take (nat len) (drop (unat (offset r)) buf))
     \<and> (\<exists>consumed rest.
           r # rs = consumed @ rest \<and> contiguous (uint (offset r)) consumed
           \<and> ((consumed \<noteq> [] \<and> recs = rest \<and> len = total_length consumed
                \<and> (rest = [] \<or> len = MAX_FRU_DATA_WRITE
                    \<or> uint (offset (hd rest)) \<noteq> uint (offset r) + len))
              \<or> (\<exists>p rest'.
                    rest = p # rest'
                    \<and> uint (offset p) = uint (offset r) + total_length consumed
                    \<and> total_length consumed < MAX_FRU_DATA_WRITE
                    \<and> MAX_FRU_DATA_WRITE - total_length consumed < uint (length_u p)
                    \<and> len = MAX_FRU_DATA_WRITE
                    \<and> recs =
                        p\<lparr>length_u :=
                            length_u p - word_of_int (MAX_FRU_DATA_WRITE - total_length consumed),
                          offset :=
                            offset p + word_of_int (MAX_FRU_DATA_WRITE - total_length consumed)\<rparr>
                        # rest'
                    \<and> uint (length_u (hd recs)) =
                        uint (length_u p) - (MAX_FRU_DATA_WRITE - total_length consumed)
                    \<and> (uint (offset p) + uint (length_u p) \<le> 65536 \<longrightarrow>
                          uint (offset (hd recs)) =
                            uint (offset p) + (MAX_FRU_DATA_WRITE - total_length consumed)))))"
proof -
  note eq = next_fru_write_eq [OF q loop, of env]
  from write_loop_len [OF loop] have len: "0 \<le> len" "len \<le> 16" and left: "left = 16 - len"
    by simp_all
  let ?cmd = "device_id fru
             # ipmi_set_uint16
                 (word_of_int (drop_bit (nat (access_by_words fru)) (uint (offset r))))
             @ fst (memcpy_from (data fru) (unat (offset r)) (nat len))"
  have size: "length ?cmd = nat (len + 3)"
    using len by (simp add: memcpy_from_length ipmi_set_uint16_def)
  have fits: "length ?cmd \<le> length (last_cmd fru)"
    unfolding size arr using len by (simp add: MAX_FRU_DATA_WRITE_def)
  have a1: "0 \<le> len \<and> len \<le> MAX_FRU_DATA_WRITE"
    using len by (simp add: MAX_FRU_DATA_WRITE_def)
  have a2: "update_recs (fst (snd (next_fru_write env fru))) = recs"
    by (simp add: eq)
  have "last (snd (snd (next_fru_write env fru))) =
         Send_command \<lparr>cmd = IPMI_WRITE_FRU_DATA_CMD,
           msg_data = take (length ?cmd) (array_write (last_cmd fru) 0 ?cmd)\<rparr>"
    unfolding size by (simp add: eq)
  then have a3: "last (snd (snd (next_fru_write env fru))) =
         Send_command \<lparr>cmd = IPMI_WRITE_FRU_DATA_CMD, msg_data = ?cmd\<rparr>"
    unfolding array_write_prefix [OF fits] .
  have a4: "length (fst (memcpy_from (data fru) (unat (offset r)) (nat len))) = nat len"
    by (rule memcpy_from_length)
  have a5: "\<forall>buf. data fru = Some buf \<and> unat (offset r) + nat len \<le> length buf \<longrightarrow>
           fst (memcpy_from (data fru) (unat (offset r)) (nat len)) =
             take (nat len) (drop (unat (offset r)) buf)"
    by (simp add: memcpy_from_in_range)
  have "0 \<le> MAX_FRU_DATA_WRITE" by (simp add: MAX_FRU_DATA_WRITE_def)
  from write_loop_structure [OF loop this] obtain consumed rest where
    split: "r # rs = consumed @ rest" and chain: "contiguous (uint (offset r)) consumed"
    and alt: "(recs = rest \<and> len = 0 + total_length consumed
                \<and> left = MAX_FRU_DATA_WRITE - total_length consumed
                \<and> (rest = [] \<or> left = 0
                    \<or> uint (offset (hd rest)) \<noteq> uint (offset r) + total_length consumed))
              \<or> (\<exists>p rest'.
                    rest = p # rest' \<and> uint (offset p) = uint (offset r) + total_length consumed
                    \<and> total_length consumed < MAX_FRU_DATA_WRITE
                    \<and> MAX_FRU_DATA_WRITE - total_length consumed < uint (length_u p)
                    \<and> len = 0 + MAX_FRU_DATA_WRITE \<and> left = 0
                    \<and> recs =
                        p\<lparr>length_u :=
                            length_u p - word_of_int (MAX_FRU_DATA_WRITE - total_length consumed),
                          offset :=
                            offset p + word_of_int (MAX_FRU_DATA_WRITE - total_length consumed)\<rparr>
                        # rest')"
    by blast
  from alt consider
    (full) "recs = rest" "len = 0 + total_length consumed"
      "left = MAX_FRU_DATA_WRITE - total_length consumed"
      "rest = [] \<or> left = 0
         \<or> uint (offset (hd rest)) \<noteq> uint (offset r) + total_length consumed"
  | (partial) p rest' where
      "rest = p # rest'" "uint (offset p) = uint (offset r) + total_length consumed"
      "total_length consumed < MAX_FRU_DATA_WRITE"
      "MAX_FRU_DATA_WRITE - total_length consumed < uint (length_u p)"
      "len = 0 + MAX_FRU_DATA_WRITE"
      "recs = p\<lparr>length_u :=
                    length_u p - word_of_int (MAX_FRU_DATA_WRITE - total_length consumed),
                 offset :=
                    offset p + word_of_int (MAX_FRU_DATA_WRITE - total_length consumed)\<rparr>
               # rest'"
    by blast
  then have a6:
    "(consumed \<noteq> [] \<and> recs = rest \<and> len = total_length consumed
                \<and> (rest = [] \<or> len = MAX_FRU_DATA_WRITE
                    \<or> uint (offset (hd rest)) \<noteq> uint (offset r) + len))
              \<or> (\<exists>p rest'.
                    rest = p # rest'
                    \<and> uint (offset p) = uint (offset r) + total_length consumed
                    \<and> total_length consumed < MAX_FRU_DATA_WRITE
                    \<and> MAX_FRU_DATA_WRITE - total_length consumed < uint (length_u p)
                    \<and> len = MAX_FRU_DATA_WRITE
                    \<and> recs =
                        p\<lparr>length_u :=
                            length_u p - word_of_int (MAX_FRU_DATA_WRITE - total_length consumed),
                          offset :=
                            offset p + word_of_int (MAX_FRU_DATA_WRITE - total_length consumed)\<rparr>
                        # rest'
                    \<and> uint (length_u (hd recs)) =
                        uint (length_u p) - (MAX_FRU_DATA_WRITE - total_length consumed)
                    \<and> (uint (offset p) + uint (length_u p) \<le> 65536 \<longrightarrow>
                          uint (offset (hd recs)) =
                            uint (offset p) + (MAX_FRU_DATA_WRITE - total_length consumed)))"
  proof cases
    case full
    note f = full(1-3) and stop = full(4)
    have ne: "consumed \<noteq> []"
    proof
      assume "consumed = []"
      with split f stop show False by (auto simp add: MAX_FRU_DATA_WRITE_def)
    qed
    from stop f left have "rest = [] \<or> len = MAX_FRU_DATA_WRITE
                    \<or> uint (offset (hd rest)) \<noteq> uint (offset r) + len"
      by (auto simp add: MAX_FRU_DATA_WRITE_def)
    with ne f show ?thesis by simp
  next
    case partial
    note g = partial
    let ?c = "MAX_FRU_DATA_WRITE - total_length consumed"
    have c0: "0 \<le> ?c" "?c \<le> uint (length_u p)" using g(3,4) by simp_all
    have l: "uint (length_u (hd recs)) = uint (length_u p) - ?c"
      unfolding g(6) using uint_sub_small [OF c0] by simp
    have o: "uint (offset (hd recs)) = uint (offset p) + ?c"
      if "uint (offset p) + uint (length_u p) \<le> 65536"
    proof -
      from that g(4) have "uint (offset p) + ?c < 65536" by simp
      from uint_add_small [OF c0(1) this] show ?thesis unfolding g(6) by simp
    qed
    from g l o show ?thesis by auto
  qed
  from a1 a2 a3 a4 a5 split chain a6 show ?thesis by blast
qed

theorem next_fru_write_batch_witness:
  "update_recs queued_fru =
     \<lparr>offset = 0, length_u = 8\<rparr>
     # [\<lparr>offset = 8, length_u = 12\<rparr>, \<lparr>offset = 30, length_u = 2\<rparr>]
   \<and> length (last_cmd queued_fru) = nat (MAX_FRU_DATA_WRITE + 4)
   \<and> write_loop 0 0 MAX_FRU_DATA_WRITE (update_recs queued_fru) =
        (16, 16, 0, [\<lparr>offset = 16, length_u = 4\<rparr>, \<lparr>offset = 30, length_u = 2\<rparr>])
   \<and> update_recs (fst (snd (next_fru_write example_env queued_fru))) =
        [\<lparr>offset = 16, length_u = 4\<rparr>, \<lparr>offset = 30, length_u = 2\<rparr>]
   \<and> last (snd (snd (next_fru_write example_env queued_fru))) =
        Send_command \<lparr>cmd = IPMI_WRITE_FRU_DATA_CMD,
          msg_data = [0, 0, 0, 0, 1, 2, 3, 4, 5, 6, 7, 8, 9, 10, 11, 12, 13, 14, 15]\<rparr>"
proof -
  let ?r = "\<lparr>offset = 0, length_u = 8\<rparr> :: fru_update_t"
  let ?rs = "[\<lparr>offset = 8, length_u = 12\<rparr>, \<lparr>offset = 30, length_u = 2\<rparr>] :: fru_update_t list"
  let ?recs = "[\<lparr>offset = 16, length_u = 4\<rparr>, \<lparr>offset = 30, length_u = 2\<rparr>] :: fru_update_t list"
  have h1: "update_recs queued_fru = ?r # ?rs" by (simp add: queued_fru_def)
  have h2: "length (last_cmd queued_fru) = nat (MAX_FRU_DATA_WRITE + 4)"
    by (simp add: queued_fru_def new_fru_def)
  have h3: "write_loop (uint (offset ?r)) 0 MAX_FRU_DATA_WRITE (?r # ?rs) = (16, 16, 0, ?recs)"
    by (simp add: write_loop_step MAX_FRU_DATA_WRITE_def)
  note t = next_fru_write_batch [OF h1 h2 h3, of example_env]
  note t1 = t [THEN conjunct2, THEN conjunct2, THEN conjunct1]
  note t2 = t [THEN conjunct2, THEN conjunct2, THEN conjunct2, THEN conjunct1]
  have a: "write_loop 0 0 MAX_FRU_DATA_WRITE (update_recs queued_fru) = (16, 16, 0, ?recs)"
    using h3 unfolding h1 by simp
  have b: "last (snd (snd (next_fru_write example_env queued_fru))) =
        Send_command \<lparr>cmd = IPMI_WRITE_FRU_DATA_CMD,
          msg_data = [0, 0, 0, 0, 1, 2, 3, 4, 5, 6, 7, 8, 9, 10, 11, 12, 13, 14, 15]\<rparr>"
    unfolding t2
    by (simp add: queued_fru_def new_fru_def memcpy_from_def ipmi_set_uint16_def)
  from h1 h2 a t1 b show ?thesis by simp
qed

section \<open>Writing: update records\<close>

lemma new_update_record_eq:
  "ipmi_fru_new_update_record True fru off len =
     (None,
      fru\<lparr>update_recs := update_recs fru @
        [if access_by_words fru \<noteq> 0
         then \<lparr>offset = ucast (normalized_offset off),
               length_u = ucast (normalized_length off len)\<rparr>
         else \<lparr>offset = ucast off, length_u = ucast len\<rparr>]\<rparr>)"
  by (simp add: ipmi_fru_new_update_record_def normalized_offset_def normalized_length_def
        Let_def and_1_nonzero_iff)

lemma even_normalized_offset: "even (unat (normalized_offset off))"
  by (simp add: normalized_offset_def unat_minus_one_odd)

lemma even_normalized_length: "even (unat (normalized_length off len))"
  by (simp add: normalized_length_def Let_def unat_plus_one_mod even_mod_word32)

lemma even_unat_ucast_16: "even (unat (ucast (w :: 32 word) :: 16 word)) = even (unat w)"
  by (simp add: unat_ucast_16 even_mod_65536)

lemma normalized_in_range:
  assumes "unat off + unat len < 65535"
  shows "unat (normalized_offset off) = 2 * (unat off div 2)"
    and "unat (normalized_offset off) + unat (normalized_length off len)
           = 2 * ((unat off + unat len + 1) div 2)"
proof -
  show o: "unat (normalized_offset off) = 2 * (unat off div 2)"
    by (simp add: normalized_offset_def unat_minus_one_odd; presburger)
  have p: "unat (len + 1) = unat len + 1"
    using assms by (simp add: unat_plus_one_mod)
  have q: "unat (2 + len) = Suc (Suc (unat len))"
    using unat_add_lem [of 2 len] assms by simp
  have l: "unat (normalized_length off len) =
           (if odd (unat off)
            then (if even (unat len) then unat len + 2 else unat len + 1)
            else (if odd (unat len) then unat len + 1 else unat len))"
    by (simp add: normalized_length_def Let_def p q)
  show "unat (normalized_offset off) + unat (normalized_length off len)
           = 2 * ((unat off + unat len + 1) div 2)"
    unfolding o l by presburger
qed

text \<open>
  Claim C4. A record inserted by \<open>ipmi_fru_new_update_record\<close> is appended to the
  queue. On a word-access FRU its offset and its length are even; when the requested
  span ends below 65535 (so that the rounded span fits the 16-bit fields of the
  record) the stored offset is the requested one rounded down to even, the stored end
  is the requested end rounded up to even, and so the stored span covers the requested
  one; a request (3,5) is stored as (2,6). On a byte-access FRU the record holds the
  request as it is. The streaming side does no rounding: the records that
  \<open>next_fru_write\<close> leaves in the queue and the length of the command it builds do
  not depend on the access mode.
\<close>

theorem new_update_record_normalization:
  "(let fru' = snd (ipmi_fru_new_update_record True fru off len);
        urec = last (update_recs fru')
    in fst (ipmi_fru_new_update_record True fru off len) = None
     \<and> update_recs fru' = update_recs fru @ [urec]
     \<and> (access_by_words fru \<noteq> 0 \<longrightarrow>
          even (unat (offset urec)) \<and> even (unat (length_u urec))
        \<and> (unat off + unat len < 65535 \<longrightarrow>
              unat (offset urec) = 2 * (unat off div 2)
            \<and> unat (offset urec) + unat (length_u urec) = 2 * ((unat off + unat len + 1) div 2)
            \<and> unat (offset urec) \<le> unat off
            \<and> unat off + unat len \<le> unat (offset urec) + unat (length_u urec)))
     \<and> (access_by_words fru = 0 \<longrightarrow>
          urec = \<lparr>offset = ucast off, length_u = ucast len\<rparr>
        \<and> (unat off < 65536 \<and> unat len < 65536 \<longrightarrow>
              unat (offset urec) = unat off \<and> unat (length_u urec) = unat len)))
   \<and> (access_by_words fru \<noteq> 0 \<longrightarrow>
        update_recs (snd (ipmi_fru_new_update_record True fru 3 5)) =
          update_recs fru @ [\<lparr>offset = 2, length_u = 6\<rparr>])
   \<and> update_recs (fst (snd (next_fru_write env (fru\<lparr>access_by_words := a\<rparr>)))) =
       update_recs (fst (snd (next_fru_write env fru)))
   \<and> last_cmd_len (fst (snd (next_fru_write env (fru\<lparr>access_by_words := a\<rparr>)))) =
       last_cmd_len (fst (snd (next_fru_write env fru)))"
proof -
  let ?urec = "last (update_recs (snd (ipmi_fru_new_update_record True fru off len)))"
  have rv: "fst (ipmi_fru_new_update_record True fru off len) = None"
    and app: "update_recs (snd (ipmi_fru_new_update_record True fru off len)) =
                update_recs fru @ [?urec]"
    by (simp_all add: new_update_record_eq)
  have words: "even (unat (offset ?urec)) \<and> even (unat (length_u ?urec))
        \<and> (unat off + unat len < 65535 \<longrightarrow>
              unat (offset ?urec) = 2 * (unat off div 2)
            \<and> unat (offset ?urec) + unat (length_u ?urec) = 2 * ((unat off + unat len + 1) div 2)
            \<and> unat (offset ?urec) \<le> unat off
            \<and> unat off + unat len \<le> unat (offset ?urec) + unat (length_u ?urec))"
    if w: "access_by_words fru \<noteq> 0"
  proof -
    have u: "?urec = \<lparr>offset = ucast (normalized_offset off),
                       length_u = ucast (normalized_length off len)\<rparr>"
      using w by (simp add: new_update_record_eq)
    have par: "even (unat (offset ?urec)) \<and> even (unat (length_u ?urec))"
      unfolding u
      by (simp add: even_unat_ucast_16 even_normalized_offset even_normalized_length)
    have rng: "unat (offset ?urec) = 2 * (unat off div 2)
            \<and> unat (offset ?urec) + unat (length_u ?urec) = 2 * ((unat off + unat len + 1) div 2)
            \<and> unat (offset ?urec) \<le> unat off
            \<and> unat off + unat len \<le> unat (offset ?urec) + unat (length_u ?urec)"
      if b: "unat off + unat len < 65535"
    proof -
      note n = normalized_in_range [OF b]
      have no: "unat (normalized_offset off) < 65536"
        and nl: "unat (normalized_length off len) < 65536"
        using n b by presburger+
      have o: "unat (offset ?urec) = unat (normalized_offset off)"
        and l: "unat (length_u ?urec) = unat (normalized_length off len)"
        unfolding u using no nl by (simp_all add: unat_ucast_16)
      show ?thesis
        unfolding o l using n by presburger
    qed
    from par rng show ?thesis by blast
  qed
  have bytes: "?urec = \<lparr>offset = ucast off, length_u = ucast len\<rparr>
        \<and> (unat off < 65536 \<and> unat len < 65536 \<longrightarrow>
              unat (offset ?urec) = unat off \<and> unat (length_u ?urec) = unat len)"
    if "access_by_words fru = 0"
    using that by (simp add: new_update_record_eq unat_ucast_16)
  have ex: "update_recs (snd (ipmi_fru_new_update_record True fru 3 5)) =
          update_recs fru @ [\<lparr>offset = 2, length_u = 6\<rparr>]"
    if "access_by_words fru \<noteq> 0"
    using that by (simp add: ipmi_fru_new_update_record_def Let_def)
  have st1: "update_recs (fst (snd (next_fru_write env (fru\<lparr>access_by_words := a\<rparr>)))) =
       update_recs (fst (snd (next_fru_write env fru)))"
    by (cases "update_recs fru") (simp_all add: next_fru_write_def Let_def split_beta)
  have st2: "last_cmd_len (fst (snd (next_fru_write env (fru\<lparr>access_by_words := a\<rparr>)))) =
       last_cmd_len (fst (snd (next_fru_write env fru)))"
    by (cases "update_recs fru") (simp_all add: next_fru_write_def Let_def split_beta)
  show ?thesis
    unfolding Let_def using rv app words bytes ex st1 st2 by blast
qed

theorem new_update_record_normalization_witness:
  "access_by_words (writing_fru\<lparr>access_by_words := 1\<rparr>) \<noteq> 0
   \<and> unat (3 :: 32 word) + unat (5 :: 32 word) < 65535
   \<and> update_recs (snd (ipmi_fru_new_update_record True (writing_fru\<lparr>access_by_words := 1\<rparr>) 3 5)) =
       [\<lparr>offset = 4, length_u = 4\<rparr>, \<lparr>offset = 2, length_u = 6\<rparr>]
   \<and> unat (offset (last (update_recs
         (snd (ipmi_fru_new_update_record True (writing_fru\<lparr>access_by_words := 1\<rparr>) 3 5))))) = 2
   \<and> unat (offset (last (update_recs
         (snd (ipmi_fru_new_update_record True (writing_fru\<lparr>access_by_words := 1\<rparr>) 3 5)))))
       + unat (length_u (last (update_recs
         (snd (ipmi_fru_new_update_record True (writing_fru\<lparr>access_by_words := 1\<rparr>) 3 5))))) = 8
   \<and> access_by_words writing_fru = 0
   \<and> last (update_recs (snd (ipmi_fru_new_update_record True writing_fru 3 5))) =
       \<lparr>offset = 3, length_u = 5\<rparr>"
proof -
  let ?F = "writing_fru\<lparr>access_by_words := 1\<rparr>"
  have h1: "access_by_words ?F \<noteq> 0" by simp
  have h2: "unat (3 :: 32 word) + unat (5 :: 32 word) < 65535" by simp
  have h3: "access_by_words writing_fru = 0" by (simp add: writing_fru_def new_fru_def)
  note t = new_update_record_normalization [of ?F 3 5 example_env 0, unfolded Let_def]
  note tw = t [THEN conjunct1, THEN conjunct2, THEN conjunct2, THEN conjunct1, THEN mp, OF h1,
               THEN conjunct2, THEN conjunct2, THEN mp, OF h2]
  have a: "update_recs (snd (ipmi_fru_new_update_record True ?F 3 5)) =
       [\<lparr>offset = 4, length_u = 4\<rparr>, \<lparr>offset = 2, length_u = 6\<rparr>]"
    using t [THEN conjunct2, THEN conjunct1, THEN mp, OF h1]
    by (simp add: writing_fru_def new_fru_def)
  have b: "unat (offset (last (update_recs (snd (ipmi_fru_new_update_record True ?F 3 5))))) = 2"
    using tw [THEN conjunct1] by simp
  have c: "unat (offset (last (update_recs (snd (ipmi_fru_new_update_record True ?F 3 5)))))
       + unat (length_u (last (update_recs (snd (ipmi_fru_new_update_record True ?F 3 5))))) = 8"
    using tw [THEN conjunct2, THEN conjunct1] by simp
  note tb = new_update_record_normalization [of writing_fru 3 5 example_env 0, unfolded Let_def,
               THEN conjunct1, THEN conjunct2, THEN conjunct2, THEN conjunct2, THEN mp, OF h3,
               THEN conjunct1]
  have d: "last (update_recs (snd (ipmi_fru_new_update_record True writing_fru 3 5))) =
       \<lparr>offset = 3, length_u = 5\<rparr>"
    using tb by simp
  from h1 h2 h3 a b c d show ?thesis by simp
qed

section \<open>Writing: the preparation on the domain thread\<close>

lemma new_update_records_frame:
  "new_update_records fru spans = fru\<lparr>update_recs := update_recs (new_update_records fru spans)\<rparr>"
proof (induction spans arbitrary: fru)
  case Nil
  show ?case by simp
next
  case (Cons span spans)
  obtain off len where span: "span = (off, len)" by (cases span)
  let ?f = "snd (ipmi_fru_new_update_record True fru off len)"
  have f: "?f = fru\<lparr>update_recs := update_recs ?f\<rparr>"
    by (simp add: ipmi_fru_new_update_record_def Let_def)
  have "new_update_records ?f spans = ?f\<lparr>update_recs := update_recs (new_update_records ?f spans)\<rparr>"
    by (rule Cons.IH)
  also have "\<dots> = fru\<lparr>update_recs := update_recs (new_update_records ?f spans)\<rparr>"
    by (subst f) simp
  finally show ?case by (simp add: span)
qed

lemma run_write_hook_frame:
  assumes "run_write_hook env fru = (rv, fru2)"
  shows "fru2 = fru\<lparr>data := data fru2, update_recs := update_recs fru2\<rparr>"
    and "data fru2 \<noteq> None"
proof -
  obtain rv' buf spans where h: "ops_write env fru = (rv', buf, spans)"
    using prod_cases3 by blast
  let ?g = "fru\<lparr>data := Some (take (unat (data_len fru)) (buf @ replicate (unat (data_len fru)) 0))\<rparr>"
  from assms h have f2: "fru2 = new_update_records ?g spans"
    by (simp add: run_write_hook_def Let_def)
  have fr: "new_update_records ?g spans = ?g\<lparr>update_recs := update_recs (new_update_records ?g spans)\<rparr>"
    by (rule new_update_records_frame)
  have d: "data fru2 = data ?g"
    unfolding f2 by (subst fr) simp
  then show "data fru2 \<noteq> None" by simp
  show "fru2 = fru\<lparr>data := data fru2, update_recs := update_recs fru2\<rparr>"
    unfolding d unfolding f2 by (subst fr) simp
qed

text \<open>
  Claim C8. \<open>start_domain_fru_write\<close> with the buffer allocated, the write hook returning
  0 and the queue empty after it: the result is 0, no command is sent, the buffer is
  freed and \<open>data\<close> is \<open>NULL\<close>, \<open>in_use\<close> is 0, the lock is released, and the installed
  callback is called with error 0 on the FRU in that state; nothing else of the FRU
  has changed.
\<close>

theorem start_domain_fru_write_no_change:
  assumes alloc: "mem_alloc_ok env"
    and hook: "run_write_hook env (fru\<lparr>data := Some (replicate (unat (data_len fru)) 0)\<rparr>) = (None, fru2)"
    and empty: "update_recs fru2 = []"
  shows "start_domain_fru_write env fru =
           (None, fru2\<lparr>data := None, in_use := 0, lock := False\<rparr>,
            Mem_free #
            (if domain_fetched_handler fru
             then [Domain_fetched_handler None (fru2\<lparr>data := None, in_use := 0, lock := False\<rparr>)]
             else []))
     \<and> (\<forall>m. Send_command m \<notin> set (snd (snd (start_domain_fru_write env fru))))
     \<and> fru2\<lparr>data := None, in_use := 0, lock := False\<rparr> =
         fru\<lparr>data := None, in_use := 0, lock := False, update_recs := []\<rparr>
     \<and> (domain_fetched_handler fru \<longrightarrow>
          snd (snd (start_domain_fru_write env fru)) =
            [Mem_free,
             Domain_fetched_handler None
               (fru\<lparr>data := None, in_use := 0, lock := False, update_recs := []\<rparr>)])"
proof -
  note fr = run_write_hook_frame [OF hook]
  have h: "domain_fetched_handler fru2 = domain_fetched_handler fru"
    by (subst fr(1)) simp
  have eq: "start_domain_fru_write env fru =
           (None, fru2\<lparr>data := None, in_use := 0, lock := False\<rparr>,
            Mem_free #
            (if domain_fetched_handler fru
             then [Domain_fetched_handler None (fru2\<lparr>data := None, in_use := 0, lock := False\<rparr>)]
             else []))"
    using alloc hook empty h
    by (simp add: start_domain_fru_write_def Let_def ipmi_fru_unlock_def)
  have same: "fru2\<lparr>data := None, in_use := 0, lock := False\<rparr> =
         fru\<lparr>data := None, in_use := 0, lock := False, update_recs := []\<rparr>"
    by (subst fr(1)) (simp add: empty)
  show ?thesis
    unfolding eq same by simp
qed

theorem start_domain_fru_write_no_change_witness:
  "mem_alloc_ok example_env
   \<and> run_write_hook example_env
        (idle_fru\<lparr>lock := True, in_use := 1, domain_fetched_handler := True,
                  data := Some (replicate 16 0)\<rparr>) =
       (None, idle_fru\<lparr>lock := True, in_use := 1, domain_fetched_handler := True,
                       data := Some (replicate 16 0)\<rparr>)
   \<and> start_domain_fru_write example_env
        (idle_fru\<lparr>lock := True, in_use := 1, domain_fetched_handler := True\<rparr>) =
       (None, idle_fru\<lparr>domain_fetched_handler := True\<rparr>,
        [Mem_free, Domain_fetched_handler None (idle_fru\<lparr>domain_fetched_handler := True\<rparr>)])
   \<and> ipmi_fru_write example_env idle_fru True =
       (None, idle_fru\<lparr>domain_fetched_handler := True\<rparr>,
        [Mem_free, Domain_fetched_handler None (idle_fru\<lparr>domain_fetched_handler := True\<rparr>)])"
proof -
  let ?F = "idle_fru\<lparr>lock := True, in_use := 1, domain_fetched_handler := True\<rparr>"
  let ?F2 = "idle_fru\<lparr>lock := True, in_use := 1, domain_fetched_handler := True,
                       data := Some (replicate 16 0)\<rparr>"
  have h1: "mem_alloc_ok example_env" by (simp add: example_env_def)
  have dl: "unat (data_len ?F) = 16" by (simp add: idle_fru_def new_fru_def)
  have h2: "run_write_hook example_env (?F\<lparr>data := Some (replicate (unat (data_len ?F)) 0)\<rparr>) =
            (None, ?F2)"
    unfolding dl
    by (simp add: run_write_hook_def example_env_def Let_def idle_fru_def new_fru_def)
  have h3: "update_recs ?F2 = []" by (simp add: idle_fru_def new_fru_def)
  note t = start_domain_fru_write_no_change [OF h1 h2 h3, THEN conjunct1]
  have a: "start_domain_fru_write example_env ?F =
       (None, idle_fru\<lparr>domain_fetched_handler := True\<rparr>,
        [Mem_free, Domain_fetched_handler None (idle_fru\<lparr>domain_fetched_handler := True\<rparr>)])"
    unfolding t by (simp add: idle_fru_def new_fru_def)
  have b: "ipmi_fru_write example_env idle_fru True = start_domain_fru_write example_env ?F"
    by (simp add: ipmi_fru_write_def Let_def ipmi_fru_lock_def example_env_def idle_fru_def
          new_fru_def)
  from h1 h2 [unfolded dl] a b show ?thesis by simp
qed

section \<open>How the handlers end\<close>

lemma callback_state_simps [simp]:
  "callback_state (Fetched_handler e s) = Some s"
  "callback_state (Domain_fetched_handler e s) = Some s"
  "callback_state (Send_command m) = None"
  "callback_state Mem_free = None"
  "callback_state (Log l) = None"
  "callback_state Ops_write_complete = None"
  "callback_state Final_fru_destroy = None"
  "callback_state Buffer_overrun = None"
  "callback_state Null_dereference = None"
  by (simp_all add: callback_state_def)

lemma via_completion_app:
  "\<forall>ev\<in>set pre. callback_state ev = None \<Longrightarrow>
   via_completion complete (fst (complete fru1 err), pre @ snd (complete fru1 err))"
  unfolding via_completion_def by blast

lemma via_completion_0: "via_completion complete (complete fru1 err)"
  using via_completion_app [of "[]" complete fru1 err] by simp

lemma via_completion_1:
  "callback_state x = None \<Longrightarrow>
   via_completion complete (fst (complete fru1 err), x # snd (complete fru1 err))"
  using via_completion_app [of "[x]" complete fru1 err] by simp

lemma via_completion_2:
  "callback_state x = None \<Longrightarrow> callback_state y = None \<Longrightarrow>
   via_completion complete (fst (complete fru1 err), x # y # snd (complete fru1 err))"
  using via_completion_app [of "[x, y]" complete fru1 err] by simp

lemma memcpy_data_no_callback:
  "\<forall>ev\<in>set (snd (memcpy_data dst pos src)). callback_state ev = None"
  by (simp add: memcpy_data_def split: option.splits)

lemma request_or_complete_shape:
  assumes "in_use fru1 = in_use fru" "\<forall>ev\<in>set pre. callback_state ev = None"
  shows "via_completion (fetch_complete env)
           (fst (request_or_complete env fru1), pre @ snd (request_or_complete env fru1))
         \<or> pending fru
           (fst (request_or_complete env fru1), pre @ snd (request_or_complete env fru1))"
proof (cases "send_rv env")
  case None
  then show ?thesis
    using assms by (simp add: request_or_complete_sent pending_def ipmi_fru_unlock_def)
next
  case (Some e)
  have "via_completion (fetch_complete env)
          (fst (fetch_complete env fru1 (Some e)),
           (pre @ [Send_command (read_fru_data_msg fru1), Log IPMI_LOG_ERR_INFO])
             @ snd (fetch_complete env fru1 (Some e)))"
    using assms by (intro via_completion_app) simp
  with Some show ?thesis
    by (simp add: request_or_complete_sent)
qed

lemma fru_data_handler_shape:
  "via_completion (fetch_complete env) (fru_data_handler env rsp fru)
   \<or> pending fru (fru_data_handler env rsp fru)"
proof -
  let ?fru = "ipmi_fru_lock fru"
  have iu: "in_use ?fru = in_use fru" by (simp add: ipmi_fru_lock_def)
  consider (cancel) "deleted ?fru \<noteq> 0"
    | (backoff) "deleted ?fru = 0" "is_backoff_cc env (rsp_cc rsp) \<and> fetch_size ?fru > MIN_FRU_DATA_FETCH"
    | (err) "deleted ?fru = 0" "\<not> (is_backoff_cc env (rsp_cc rsp) \<and> fetch_size ?fru > MIN_FRU_DATA_FETCH)"
        "rsp_cc rsp \<noteq> 0"
    | (ok) "deleted ?fru = 0" "\<not> (is_backoff_cc env (rsp_cc rsp) \<and> fetch_size ?fru > MIN_FRU_DATA_FETCH)"
        "rsp_cc rsp = 0"
    by blast
  then show ?thesis
  proof cases
    case cancel
    then show ?thesis
      by (simp add: fru_data_handler_def Let_def via_completion_0)
  next
    case backoff
    let ?f1 = "?fru\<lparr>fetch_size := fetch_size ?fru - FRU_DATA_FETCH_DECR\<rparr>"
    have "fru_data_handler env rsp fru = request_or_complete env ?f1"
      using backoff by (simp add: fru_data_handler_def Let_def)
    moreover have "in_use ?f1 = in_use fru" by (simp add: ipmi_fru_lock_def)
    ultimately show ?thesis
      using request_or_complete_shape [of ?f1 fru "[]" env] by simp
  next
    case err
    then show ?thesis
      by (auto simp add: fru_data_handler_def Let_def split_beta via_completion_1)
  next
    case ok
    let ?count = "push_bit (nat (access_by_words ?fru)) (uint (rsp_data rsp 1))"
    show ?thesis
    proof (cases "rsp_data_len rsp < 2 \<or> ?count = 0 \<or> ?count > rsp_data_len rsp - 2")
      case True
      with ok show ?thesis
        by (auto simp add: fru_data_handler_def Let_def split_beta via_completion_1)
    next
      case False
      let ?cp = "memcpy_data (data ?fru) (unat (curr_pos ?fru))
                    (take (nat ?count) (drop 1 (rsp_rest rsp)))"
      let ?f2 = "?fru\<lparr>data := fst ?cp, curr_pos := curr_pos ?fru + word_of_int ?count\<rparr>"
      have pre: "\<forall>ev\<in>set (snd ?cp). callback_state ev = None"
        by (rule memcpy_data_no_callback)
      have iu2: "in_use ?f2 = in_use fru" by (simp add: ipmi_fru_lock_def)
      show ?thesis
      proof (cases "curr_pos ?f2 < data_len ?f2")
        case more: True
        have "fru_data_handler env rsp fru =
                (fst (request_or_complete env ?f2), snd ?cp @ snd (request_or_complete env ?f2))"
          using ok False more by (auto simp add: fru_data_handler_def Let_def split_beta)
        then show ?thesis
          using request_or_complete_shape [OF iu2 pre, of env] by simp
      next
        case last_chunk: False
        have "fru_data_handler env rsp fru =
                (fst (fetch_complete env ?f2 None), snd ?cp @ snd (fetch_complete env ?f2 None))"
          using ok False last_chunk by (auto simp add: fru_data_handler_def Let_def split_beta)
        then show ?thesis
          using via_completion_app [OF pre, of "fetch_complete env" ?f2 None] by simp
      qed
    qed
  qed
qed

lemma fru_inventory_area_handler_shape:
  "via_completion (fetch_complete env) (fru_inventory_area_handler env rsp fru)
   \<or> pending fru (fru_inventory_area_handler env rsp fru)"
proof -
  let ?fru = "ipmi_fru_lock fru"
  let ?f2 = "?fru\<lparr>data_len := ipmi_get_uint16 (rsp_data rsp 1) (rsp_data rsp 2),
                   access_by_words := uint (rsp_data rsp 3 AND 1)\<rparr>"
  let ?f3 = "?f2\<lparr>data := Some (replicate (unat (data_len ?f2)) 0)\<rparr>"
  show ?thesis
  proof (cases "deleted ?fru \<noteq> 0 \<or> rsp_cc rsp \<noteq> 0 \<or> rsp_data_len rsp < 4
                  \<or> data_len ?f2 < 8 \<or> \<not> mem_alloc_ok env")
    case True
    then show ?thesis
      by (auto simp add: fru_inventory_area_handler_def Let_def split_beta
            via_completion_0 via_completion_1)
  next
    case False
    then have "fru_inventory_area_handler env rsp fru = request_or_complete env ?f3"
      by (auto simp add: fru_inventory_area_handler_def Let_def)
    moreover have "in_use ?f3 = in_use fru" by (simp add: ipmi_fru_lock_def)
    ultimately show ?thesis
      using request_or_complete_shape [of ?f3 fru "[]" env] by simp
  qed
qed

lemma memcpy_from_no_callback:
  "\<forall>ev\<in>set (snd (memcpy_from src pos n)). callback_state ev = None"
  by (simp add: memcpy_from_def split: option.splits)

lemma next_fru_write_frame:
  "in_use (fst (snd (next_fru_write env fru))) = in_use fru"
  "lock (fst (snd (next_fru_write env fru))) = lock fru"
  "refcount (fst (snd (next_fru_write env fru))) = refcount fru"
  "data (fst (snd (next_fru_write env fru))) = data fru"
  "domain_fetched_handler (fst (snd (next_fru_write env fru))) = domain_fetched_handler fru"
  "fst (next_fru_write env fru) = send_rv env"
  by (cases "update_recs fru"; simp add: next_fru_write_def Let_def split_beta)+

lemma next_fru_write_no_callback:
  "\<forall>ev\<in>set (snd (snd (next_fru_write env fru))). callback_state ev = None"
  using memcpy_from_no_callback
  by (cases "update_recs fru") (simp_all add: next_fru_write_def Let_def split_beta)

lemma fru_write_handler_shape:
  "via_completion (write_complete env) (fru_write_handler env rsp fru)
   \<or> pending fru (fru_write_handler env rsp fru)"
proof -
  let ?fru = "ipmi_fru_lock fru"
  have iu: "in_use ?fru = in_use fru" by (simp add: ipmi_fru_lock_def)
  consider (busy) "rsp_cc rsp = 0x81"
    | (err) "rsp_cc rsp \<noteq> 0x81" "rsp_cc rsp \<noteq> 0 \<or> rsp_data_len rsp < 2"
    | (ok) "rsp_cc rsp \<noteq> 0x81" "rsp_cc rsp = 0" "\<not> rsp_data_len rsp < 2"
    by blast
  then show ?thesis
  proof cases
    case busy
    show ?thesis
    proof (cases "retry_count ?fru \<ge> MAX_FRU_WRITE_RETRIES")
      case True
      with busy show ?thesis
        by (simp add: fru_write_handler_def Let_def via_completion_0)
    next
      case False
      show ?thesis
      proof (cases "send_rv env")
        case None
        with busy False show ?thesis
          by (simp add: fru_write_handler_def Let_def pending_def ipmi_fru_unlock_def
                ipmi_fru_lock_def)
      next
        case (Some e)
        with busy False show ?thesis
          by (simp add: fru_write_handler_def Let_def split_beta via_completion_1)
      qed
    qed
  next
    case err
    then show ?thesis
      by (auto simp add: fru_write_handler_def Let_def split_beta via_completion_1)
  next
    case ok
    let ?warn = "(if word_of_int (push_bit (nat (access_by_words ?fru)) (uint (rsp_data rsp 1)))
                     \<noteq> last_cmd_len ?fru - 3
                then [Log IPMI_LOG_WARNING] else [])"
    have warn: "\<forall>ev\<in>set ?warn. callback_state ev = None" by simp
    show ?thesis
    proof (cases "update_recs ?fru = []")
      case True
      have "fru_write_handler env rsp fru =
              (fst (write_complete env ?fru None), ?warn @ snd (write_complete env ?fru None))"
        using ok True by (simp add: fru_write_handler_def Let_def split_beta)
      then show ?thesis
        using via_completion_app [OF warn, of "write_complete env" ?fru None] by simp
    next
      case False
      let ?n = "next_fru_write env ?fru"
      have pre: "\<forall>ev\<in>set (?warn @ snd (snd ?n)). callback_state ev = None"
        using next_fru_write_no_callback [of env ?fru] by auto
      show ?thesis
      proof (cases "send_rv env")
        case None
        have "fru_write_handler env rsp fru = (ipmi_fru_unlock (fst (snd ?n)), ?warn @ snd (snd ?n))"
          using ok False None next_fru_write_frame(6) [of env ?fru]
          by (simp add: fru_write_handler_def Let_def split_beta split: option.splits)
        then show ?thesis
          using pre next_fru_write_frame(1) [of env ?fru]
          by (simp add: pending_def ipmi_fru_unlock_def ipmi_fru_lock_def)
      next
        case (Some e)
        have "fru_write_handler env rsp fru =
                (fst (write_complete env (fst (snd ?n)) (Some e)),
                 (?warn @ snd (snd ?n)) @ snd (write_complete env (fst (snd ?n)) (Some e)))"
          using ok False Some next_fru_write_frame(6) [of env ?fru]
          by (simp add: fru_write_handler_def Let_def split_beta split: option.splits)
        then show ?thesis
          using via_completion_app [OF pre, of "write_complete env" "fst (snd ?n)" "Some e"]
          by simp
      qed
    qed
  qed
qed

lemma out_err_eq:
  "out_err fru e ev =
     (Some e, fru\<lparr>update_recs := [], data := None, in_use := 0, lock := False\<rparr>,
      ev @ (if data fru \<noteq> None then [Mem_free] else []))"
  by (simp add: out_err_def Let_def ipmi_fru_unlock_def)

lemma run_write_hook_fields:
  assumes "run_write_hook env fru = (rv, fru2)"
  shows "refcount fru2 = refcount fru" "in_use fru2 = in_use fru" "lock fru2 = lock fru"
    "domain_fetched_handler fru2 = domain_fetched_handler fru"
  by (subst run_write_hook_frame(1) [OF assms], simp)+

text \<open>The ways \<open>start_domain_fru_write\<close> can end.\<close>

lemma start_domain_fru_write_cases:
  obtains
    (failed) e F where
      "start_domain_fru_write env fru =
         (Some e, F\<lparr>update_recs := [], data := None, in_use := 0, lock := False\<rparr>,
          snd (snd (start_domain_fru_write env fru)))"
      "refcount F = refcount fru" "domain_fetched_handler F = domain_fetched_handler fru"
      "\<forall>ev\<in>set (snd (snd (start_domain_fru_write env fru))). callback_state ev = None"
  | (unchanged) fru2 where
      "mem_alloc_ok env"
      "run_write_hook env (fru\<lparr>data := Some (replicate (unat (data_len fru)) 0)\<rparr>) = (None, fru2)"
      "update_recs fru2 = []"
  | (streaming) F where
      "start_domain_fru_write env fru =
         (None, F\<lparr>lock := False\<rparr>, snd (snd (start_domain_fru_write env fru)))"
      "in_use F = in_use fru" "refcount F = refcount fru + 1"
      "\<forall>ev\<in>set (snd (snd (start_domain_fru_write env fru))). callback_state ev = None"
proof (cases "mem_alloc_ok env")
  case False
  then have "start_domain_fru_write env fru =
         (Some ENOMEM, fru\<lparr>update_recs := [], data := None, in_use := 0, lock := False\<rparr>, [])"
    by (simp add: start_domain_fru_write_def out_err_eq)
  then show ?thesis
    using failed [of ENOMEM fru] by simp
next
  case True
  let ?f1 = "fru\<lparr>data := Some (replicate (unat (data_len fru)) 0)\<rparr>"
  obtain rv fru2 where hook: "run_write_hook env ?f1 = (rv, fru2)"
    by (cases "run_write_hook env ?f1")
  note f2 = run_write_hook_fields [OF hook]
  show ?thesis
  proof (cases rv)
    case (Some e)
    with True hook have "start_domain_fru_write env fru =
         (Some e, fru2\<lparr>update_recs := [], data := None, in_use := 0, lock := False\<rparr>,
          (if data fru2 \<noteq> None then [Mem_free] else []))"
      by (simp add: start_domain_fru_write_def Let_def out_err_eq)
    then show ?thesis
      using failed [of e fru2] f2 by simp
  next
    case None
    show ?thesis
    proof (cases "update_recs fru2 = []")
      case empty: True
      from True hook None empty show ?thesis by (intro unchanged) simp_all
    next
      case False
      let ?n = "next_fru_write env fru2"
      note nf = next_fru_write_frame [of env fru2]
      note nc = next_fru_write_no_callback [of env fru2]
      show ?thesis
      proof (cases "send_rv env")
        case sent: None
        with True hook None False nf(6) have "start_domain_fru_write env fru =
           (None, (fru_get (fst (snd ?n)))\<lparr>lock := False\<rparr>, snd (snd ?n))"
          by (simp add: start_domain_fru_write_def Let_def split_beta ipmi_fru_unlock_def
                split: option.splits)
        then show ?thesis
          using streaming [of "fru_get (fst (snd ?n))"] nf nc f2
          by (simp add: fru_get_def)
      next
        case (Some e)
        with True hook None False nf(6) have "start_domain_fru_write env fru =
           (Some e, (fst (snd ?n))\<lparr>update_recs := [], data := None, in_use := 0, lock := False\<rparr>,
            snd (snd ?n) @ (if data (fst (snd ?n)) \<noteq> None then [Mem_free] else []))"
          by (simp add: start_domain_fru_write_def Let_def split_beta out_err_eq
                split: option.splits)
        moreover have "\<forall>ev\<in>set (snd (snd ?n) @ (if data (fst (snd ?n)) \<noteq> None then [Mem_free] else [])).
                         callback_state ev = None"
          using nc by auto
        ultimately show ?thesis
          using nf(3,5) f2(1,4) by (intro failed [of e "fst (snd ?n)"]) simp_all
      qed
    qed
  qed
qed

lemma clean_callbacks_fetch_complete: "clean_callbacks (snd (fetch_complete env fru err))"
  by (auto simp add: clean_callbacks_def fetch_complete_events Let_def)

lemma clean_callbacks_write_complete: "clean_callbacks (snd (write_complete env fru err))"
  by (auto simp add: clean_callbacks_def write_complete_eq Let_def)

lemma clean_callbacks_none:
  "\<forall>ev\<in>set evs. callback_state ev = None \<Longrightarrow> clean_callbacks evs"
  by (simp add: clean_callbacks_def)

lemma clean_callbacks_append:
  "clean_callbacks (xs @ ys) \<longleftrightarrow> clean_callbacks xs \<and> clean_callbacks ys"
  by (auto simp add: clean_callbacks_def)

lemma clean_via_completion:
  assumes "via_completion complete res" "\<And>f e. clean_callbacks (snd (complete f e))"
  shows "clean_callbacks (snd res)"
proof -
  from assms(1) obtain fru1 err pre where
    res: "res = (fst (complete fru1 err), pre @ snd (complete fru1 err))"
    and pre: "\<forall>ev\<in>set pre. callback_state ev = None"
    unfolding via_completion_def by blast
  show ?thesis
    unfolding res using pre assms(2)
    by (simp add: clean_callbacks_append clean_callbacks_none)
qed

lemma clean_pending: "pending fru res \<Longrightarrow> clean_callbacks (snd res)"
  by (simp add: pending_def clean_callbacks_none)

lemma completed_data_none:
  assumes "via_completion complete res \<or> pending fru res"
    and "in_use fru \<noteq> 0" "in_use (fst res) = 0"
    and "\<And>f e. data (fst (complete f e)) = None"
  shows "data (fst res) = None"
proof -
  from assms(2,3) have "\<not> pending fru res" by (simp add: pending_def)
  with assms(1) obtain fru1 err pre where
    "res = (fst (complete fru1 err), pre @ snd (complete fru1 err))"
    unfolding via_completion_def by blast
  then show ?thesis by (simp add: assms(4))
qed

lemma clean_callbacks_start_domain_fru_write:
  "clean_callbacks (snd (snd (start_domain_fru_write env fru)))"
proof (cases rule: start_domain_fru_write_cases [of env fru])
  case (failed e F)
  then show ?thesis by (simp add: clean_callbacks_none)
next
  case (unchanged fru2)
  from start_domain_fru_write_no_change [OF unchanged, THEN conjunct1]
  show ?thesis by (simp add: clean_callbacks_def)
next
  case (streaming F)
  then show ?thesis by (simp add: clean_callbacks_none)
qed

lemma clean_callbacks_ipmi_fru_write:
  "clean_callbacks (snd (snd (ipmi_fru_write env fru cb)))"
proof -
  have none: "clean_callbacks []" by (simp add: clean_callbacks_def)
  show ?thesis
    by (simp add: ipmi_fru_write_def Let_def clean_callbacks_start_domain_fru_write none
          split: option.splits)
qed

lemma clean_shape:
  assumes "via_completion complete res \<or> pending fru res"
    and "\<And>f e. clean_callbacks (snd (complete f e))"
  shows "clean_callbacks (snd res)"
  using assms(1)
proof
  assume "via_completion complete res"
  then show ?thesis using assms(2) by (rule clean_via_completion)
next
  assume "pending fru res"
  then show ?thesis by (rule clean_pending)
qed


section \<open>Completion: the buffer is gone before the callback\<close>

text \<open>
  Claim C10. Whatever the response and the state, every callback that the inventory
  handler, the data handler, the write handler, \<open>start_domain_fru_write\<close> or
  \<open>ipmi_fru_write\<close> makes finds \<open>data = NULL\<close>, \<open>in_use = 0\<close> and the lock released; an
  operation in progress that a handler ends (\<open>in_use\<close> goes to 0) leaves \<open>data = NULL\<close>.
  The completion routines free the buffer, when there is one, before they call back:
  their events are the free, then the callback, then the drop of the reference. After
  a fetch that completes with error 0 what the FRU keeps is the \<open>rec_data\<close> the
  decoders left, and no buffer.
\<close>

theorem completion_frees_buffer_before_callback:
  "clean_callbacks (snd (fru_inventory_area_handler env rsp fru))
   \<and> clean_callbacks (snd (fru_data_handler env rsp fru))
   \<and> clean_callbacks (snd (fru_write_handler env rsp fru))
   \<and> clean_callbacks (snd (snd (start_domain_fru_write env fru)))
   \<and> clean_callbacks (snd (snd (ipmi_fru_write env fru cb)))
   \<and> (in_use fru \<noteq> 0 \<and> in_use (fst (fru_inventory_area_handler env rsp fru)) = 0 \<longrightarrow>
        data (fst (fru_inventory_area_handler env rsp fru)) = None)
   \<and> (in_use fru \<noteq> 0 \<and> in_use (fst (fru_data_handler env rsp fru)) = 0 \<longrightarrow>
        data (fst (fru_data_handler env rsp fru)) = None)
   \<and> (in_use fru \<noteq> 0 \<and> in_use (fst (fru_write_handler env rsp fru)) = 0 \<longrightarrow>
        data (fst (fru_write_handler env rsp fru)) = None)
   \<and> (in_use fru \<noteq> 0 \<and> in_use (fst (snd (start_domain_fru_write env fru))) = 0 \<longrightarrow>
        data (fst (snd (start_domain_fru_write env fru))) = None)
   \<and> (let verdict = (if err = None then fst (fru_call_decoders env fru) else err);
            fru1 = (if err = None then snd (fru_call_decoders env fru) else fru);
            snap = fru1\<lparr>data := None, in_use := 0, lock := False\<rparr>
        in snd (fetch_complete env fru err) =
             (if data fru \<noteq> None then [Mem_free] else [])
             @ (if fetched_handler fru then [Fetched_handler verdict snap]
                else if domain_fetched_handler fru then [Domain_fetched_handler verdict snap]
                else [])
             @ (if refcount fru = 1 then [Final_fru_destroy] else []))
   \<and> snd (write_complete env fru err) =
         (if err = None then [Ops_write_complete] else [])
         @ (if data fru \<noteq> None then [Mem_free] else [])
         @ (if domain_fetched_handler fru
            then [Domain_fetched_handler err (fru\<lparr>data := None, in_use := 0, lock := False\<rparr>)]
            else [])
         @ (if refcount fru = 1 then [Final_fru_destroy] else [])
   \<and> data (fst (fetch_complete env fru err)) = None
   \<and> in_use (fst (fetch_complete env fru err)) = 0
   \<and> data (fst (write_complete env fru err)) = None
   \<and> in_use (fst (write_complete env fru err)) = 0
   \<and> rec_data (fst (fetch_complete env fru None)) = rec_data (snd (fru_call_decoders env fru))"
proof (intro conjI impI)
  show "clean_callbacks (snd (fru_inventory_area_handler env rsp fru))"
    by (rule clean_shape [OF fru_inventory_area_handler_shape]) (rule clean_callbacks_fetch_complete)
  show "clean_callbacks (snd (fru_data_handler env rsp fru))"
    by (rule clean_shape [OF fru_data_handler_shape]) (rule clean_callbacks_fetch_complete)
  show "clean_callbacks (snd (fru_write_handler env rsp fru))"
    by (rule clean_shape [OF fru_write_handler_shape]) (rule clean_callbacks_write_complete)
  show "clean_callbacks (snd (snd (start_domain_fru_write env fru)))"
    by (rule clean_callbacks_start_domain_fru_write)
  show "clean_callbacks (snd (snd (ipmi_fru_write env fru cb)))"
    by (rule clean_callbacks_ipmi_fru_write)
next
  assume a: "in_use fru \<noteq> 0 \<and> in_use (fst (fru_inventory_area_handler env rsp fru)) = 0"
  show "data (fst (fru_inventory_area_handler env rsp fru)) = None"
    by (rule completed_data_none [OF fru_inventory_area_handler_shape a [THEN conjunct1]
          a [THEN conjunct2]]) (rule fetch_complete_fields)
next
  assume a: "in_use fru \<noteq> 0 \<and> in_use (fst (fru_data_handler env rsp fru)) = 0"
  show "data (fst (fru_data_handler env rsp fru)) = None"
    by (rule completed_data_none [OF fru_data_handler_shape a [THEN conjunct1]
          a [THEN conjunct2]]) (rule fetch_complete_fields)
next
  assume a: "in_use fru \<noteq> 0 \<and> in_use (fst (fru_write_handler env rsp fru)) = 0"
  show "data (fst (fru_write_handler env rsp fru)) = None"
    by (rule completed_data_none [OF fru_write_handler_shape a [THEN conjunct1]
          a [THEN conjunct2]]) (rule write_complete_fields)
next
  assume a: "in_use fru \<noteq> 0 \<and> in_use (fst (snd (start_domain_fru_write env fru))) = 0"
  show "data (fst (snd (start_domain_fru_write env fru))) = None"
  proof (cases rule: start_domain_fru_write_cases [of env fru])
    case (failed e F)
    show ?thesis by (subst failed(1)) simp
  next
    case (unchanged fru2)
    from start_domain_fru_write_no_change [OF unchanged, THEN conjunct1]
    show ?thesis by simp
  next
    case (streaming F)
    have "in_use (fst (snd (start_domain_fru_write env fru))) = in_use F"
      by (subst streaming(1)) simp
    with streaming(2) a show ?thesis by simp
  qed
next
  show "let verdict = (if err = None then fst (fru_call_decoders env fru) else err);
            fru1 = (if err = None then snd (fru_call_decoders env fru) else fru);
            snap = fru1\<lparr>data := None, in_use := 0, lock := False\<rparr>
        in snd (fetch_complete env fru err) =
             (if data fru \<noteq> None then [Mem_free] else [])
             @ (if fetched_handler fru then [Fetched_handler verdict snap]
                else if domain_fetched_handler fru then [Domain_fetched_handler verdict snap]
                else [])
             @ (if refcount fru = 1 then [Final_fru_destroy] else [])"
    by (simp add: fetch_complete_events Let_def)
  show "snd (write_complete env fru err) =
         (if err = None then [Ops_write_complete] else [])
         @ (if data fru \<noteq> None then [Mem_free] else [])
         @ (if domain_fetched_handler fru
            then [Domain_fetched_handler err (fru\<lparr>data := None, in_use := 0, lock := False\<rparr>)]
            else [])
         @ (if refcount fru = 1 then [Final_fru_destroy] else [])"
    by (simp add: write_complete_eq Let_def)
  show "data (fst (fetch_complete env fru err)) = None"
    and "in_use (fst (fetch_complete env fru err)) = 0"
    by (rule fetch_complete_fields)+
  show "data (fst (write_complete env fru err)) = None"
    and "in_use (fst (write_complete env fru err)) = 0"
    by (rule write_complete_fields)+
  show "rec_data (fst (fetch_complete env fru None)) = rec_data (snd (fru_call_decoders env fru))"
    by (simp add: fetch_complete_eq Let_def fru_put_fst ipmi_fru_unlock_def)
qed


theorem completion_frees_buffer_before_callback_witness:
  "in_use last_chunk_fru \<noteq> 0
   \<and> in_use (fst (fru_data_handler example_env final_rsp last_chunk_fru)) = 0
   \<and> data (fst (fru_data_handler example_env final_rsp last_chunk_fru)) = None
   \<and> rec_data (fst (fru_data_handler example_env final_rsp last_chunk_fru)) = Some 1
   \<and> snd (fru_data_handler example_env final_rsp last_chunk_fru) =
       [Mem_free,
        Fetched_handler None
          (last_chunk_fru\<lparr>curr_pos := 40, data := None, in_use := 0, rec_data := Some 1,
             data_len := 40\<rparr>)]
   \<and> clean_callbacks (snd (fru_data_handler example_env final_rsp last_chunk_fru))
   \<and> data (last_chunk_fru\<lparr>curr_pos := 40, data := None, in_use := 0, rec_data := Some 1,
             data_len := 40\<rparr>) = None"
proof -
  let ?H = "fru_data_handler example_env final_rsp last_chunk_fru"
  let ?S = "last_chunk_fru\<lparr>curr_pos := 40, data := None, in_use := 0, rec_data := Some 1,
             data_len := 40\<rparr>"
  have run: "?H = (?S\<lparr>refcount := 1\<rparr>, [Mem_free, Fetched_handler None ?S])"
    by (simp add: fru_data_handler_def last_chunk_fru_def final_rsp_def new_fru_def
        example_env_def ipmi_fru_lock_def rsp_data_len_def rsp_data_def
        memcpy_data_def fetch_complete_eq fru_call_decoders_def fru_put_fst fru_put_snd
        ipmi_fru_unlock_def MAX_FRU_DATA_FETCH_def MAX_FRU_DATA_WRITE_def
        MIN_FRU_DATA_FETCH_def is_backoff_cc_def Let_def)
  have h1: "in_use last_chunk_fru \<noteq> 0" by (simp add: last_chunk_fru_def new_fru_def)
  have h2: "in_use (fst ?H) = 0" by (simp add: run)
  note t = completion_frees_buffer_before_callback
             [of example_env final_rsp last_chunk_fru True None]
  note clean = t [THEN conjunct2, THEN conjunct1]
  note freed = t [THEN conjunct2, THEN conjunct2, THEN conjunct2, THEN conjunct2,
                  THEN conjunct2, THEN conjunct2, THEN conjunct1, THEN mp, OF conjI [OF h1 h2]]
  have "Fetched_handler None ?S \<in> set (snd ?H)" by (simp add: run)
  with clean have "data ?S = None"
    unfolding clean_callbacks_def by (metis callback_state_simps(1))
  with h1 h2 freed clean show ?thesis
    by (simp add: run)
qed

section \<open>Completion: how errors are delivered\<close>





end
